theory Spec2Isabelle
  imports Complex_Main
begin

section \<open>Strings, paths and dictionaries\<close>

text \<open>
  The source renders machine integers in decimal, once with
  \<^verbatim>\<open>boost::lexical_cast<std::string>(mb_i)\<close> and once with
  \<^verbatim>\<open>boost::format("Radio_%d") % dspno\<close>. Both arguments are of type
  \<^verbatim>\<open>size_t\<close>, so no sign is ever printed.
\<close>

definition digit_char :: "nat \<Rightarrow> char" where
  "digit_char d = ''0123456789'' ! (d mod 10)"

fun string_of_nat :: "nat \<Rightarrow> string" where
  "string_of_nat n =
     (if n < 10 then [digit_char n]
      else string_of_nat (n div 10) @ [digit_char (n mod 10)])"

declare string_of_nat.simps [simp del]

text \<open>
  \<^verbatim>\<open>fs_path operator/\<close> joins two path components with a slash. Paths of the
  property tree are plain strings, as in the source.
\<close>

definition fs_path_div :: "string \<Rightarrow> string \<Rightarrow> string" where
  "fs_path_div lhs rhs = lhs @ ''/'' @ rhs"

text \<open>
  Modelled from the spec: \<^verbatim>\<open>uhd::dict\<close> (declared elsewhere in the library)
  is the "configuration map" and the registry's container. It keeps its entries in
  insertion order; a lookup finds the first entry with the key, and an assignment
  through \<^verbatim>\<open>operator[]\<close> overwrites that entry or appends a new one.
\<close>

type_synonym ('k, 'v) dict = "('k \<times> 'v) list"

definition dict_has_key :: "('k, 'v) dict \<Rightarrow> 'k \<Rightarrow> bool" where
  "dict_has_key d k = (map_of d k \<noteq> None)"

definition dict_keys :: "('k, 'v) dict \<Rightarrow> 'k list" where
  "dict_keys d = map fst d"

definition dict_vals :: "('k, 'v) dict \<Rightarrow> 'v list" where
  "dict_vals d = map snd d"

fun dict_set :: "('k, 'v) dict \<Rightarrow> 'k \<Rightarrow> 'v \<Rightarrow> ('k, 'v) dict" where
  "dict_set [] k v = [(k, v)]"
| "dict_set ((k', v') # d) k v =
     (if k' = k then (k', v) # d else (k', v') # dict_set d k v)"

type_synonym device_addr_t = "(string, string) dict"

section \<open>Data model\<close>

text \<open>
  Exceptions are values. \<open>Assertion_error\<close> is what \<^verbatim>\<open>UHD_ASSERT_THROW\<close> raises,
  \<open>Value_error\<close> is the failure of the external subdevice validation,
  \<open>Lookup_error\<close> the failure of a property-tree read, \<open>Io_error\<close> is
  \<^verbatim>\<open>uhd::io_error\<close> with its message, and \<open>Other_error\<close> any exception the source
  does not catch. Indexing an array out of its bounds is undefined in C++; the model
  makes it the explicit outcome \<open>Undefined_behaviour\<close>.
\<close>

datatype error =
    Assertion_error
  | Value_error
  | Lookup_error
  | Io_error string
  | Other_error string
  | Undefined_behaviour

text \<open>
  A \<^verbatim>\<open>double\<close> is only ever copied from one place to another by the functions
  below; no arithmetic is done on it. It is modelled as a real number.
\<close>

type_synonym double = real

text \<open>
  The receive endpoint. \<open>rx_term_tick_rate\<close> and \<open>rx_term_output_samp_rate\<close> are what
  \<^verbatim>\<open>get_terminator()->get_tick_rate()\<close> and
  \<^verbatim>\<open>get_terminator()->get_output_samp_rate()\<close> report; the other three fields are
  what \<^verbatim>\<open>set_tick_rate\<close>, \<^verbatim>\<open>set_samp_rate\<close> and \<^verbatim>\<open>set_scale_factor\<close> store.
\<close>

record recv_packet_streamer =
  rx_term_tick_rate :: double
  rx_term_output_samp_rate :: double
  rx_tick_rate :: double
  rx_samp_rate :: double
  rx_scale_factor :: double

text \<open>
  The transmit endpoint. \<open>tx_downstream_radios\<close> is the result of
  \<^verbatim>\<open>get_terminator()->find_downstream_node<rfnoc::radio_ctrl>()\<close>: for each radio
  control block found, the pair of \<^verbatim>\<open>get_block_id().get_device_no()\<close> and
  \<^verbatim>\<open>get_block_id().get_block_count()\<close>, in the order found.
\<close>

record send_packet_streamer =
  tx_tick_rate :: double
  tx_samp_rate :: double
  tx_scale_factor :: double
  tx_downstream_radios :: "(nat \<times> nat) list"

text \<open>
  \<^verbatim>\<open>radio_perifs_t\<close>: the scaling adjustments the DDC and the DUC report, and the
  last arguments their mux setters received (\<open>None\<close> before the first call).
\<close>

record radio_perifs_t =
  ddc_scaling_adjustment :: double
  duc_scaling_adjustment :: double
  ddc_mux :: "(string \<times> bool) option"
  rx_fe_mux :: "bool option"
  tx_fe_mux :: "string option"

text \<open>
  \<^verbatim>\<open>mboard_members_t\<close>. The member function \<^verbatim>\<open>get_radio_index\<close> is declared in
  a header elsewhere in the library and is a field here. The source keeps its result
  in an \<^verbatim>\<open>int\<close> and uses it as an array index and as a \<^verbatim>\<open>size_t\<close>; on the indices
  of an array the three types agree, and the model has natural numbers.
\<close>

record mboard_members_t =
  radio_perifs :: "radio_perifs_t list"
  get_radio_index :: "string \<Rightarrow> nat"
  recv_args :: device_addr_t
  send_args :: device_addr_t
  xport_path :: string

record subdev_spec_pair_t =
  db_name :: string
  sd_name :: string

type_synonym subdev_spec_t = "subdev_spec_pair_t list"

text \<open>
  Every call the functions make on a collaborator is also appended to a log, in the
  order in which the source makes it. Streamers are named by their address, radios by
  motherboard index and radio index.
\<close>

datatype call =
    Rx_set_tick_rate nat double
  | Rx_set_samp_rate nat double
  | Rx_set_scale_factor nat double
  | Tx_set_tick_rate nat double
  | Tx_set_samp_rate nat double
  | Tx_set_scale_factor nat double
  | Tx_fe_set_mux nat nat string
  | Ddc_set_mux nat nat string bool
  | Rx_fe_set_mux nat nat bool
  | Tree_set_chan_dsp_mapping string "nat list"
  | Synchronize_dacs "(nat \<times> nat) list"

text \<open>
  The object \<^verbatim>\<open>x300_impl\<close>; the member \<^verbatim>\<open>_mb\<close> is the field \<open>m_mb\<close>, and so
  on. The registries \<open>m_rx_streamers\<close> and \<open>m_tx_streamers\<close> map a block id to a
  weak pointer, which is an address; two keys may hold the same address. The stores
  \<open>m_rx_objs\<close> and \<open>m_tx_objs\<close> hold the streamer objects that are still alive: at
  an address where the store is \<open>None\<close>, \<^verbatim>\<open>lock()\<close> followed by
  \<^verbatim>\<open>dynamic_pointer_cast\<close> yields a null pointer.

  Modelled from the spec: the property tree \<^verbatim>\<open>_tree\<close> (its class is defined elsewhere
  in the library) is a store with "path-addressed get/set of typed values". It is
  split by the type of the value: \<open>m_tree_str\<close> for the strings read,
  \<open>m_tree_vec\<close> for the index vectors written. Reading a path that holds no value
  raises; writing a path stores the value.
\<close>

record x300_impl =
  m_mb :: "mboard_members_t list"
  m_tree_str :: "string \<rightharpoonup> string"
  m_tree_vec :: "string \<rightharpoonup> nat list"
  m_rx_streamers :: "(string, nat) dict"
  m_tx_streamers :: "(string, nat) dict"
  m_rx_objs :: "nat \<rightharpoonup> recv_packet_streamer"
  m_tx_objs :: "nat \<rightharpoonup> send_packet_streamer"
  calls :: "call list"

text \<open>
  \<^verbatim>\<open>_rx_streamers[block_id].lock()\<close> with the cast: the address and the object, or
  \<open>None\<close> for a null pointer. A key that is missing yields an empty weak pointer,
  which locks to null as well.
\<close>

definition lock_streamer :: "(string, nat) dict \<Rightarrow> (nat \<rightharpoonup> 'a) \<Rightarrow> string \<Rightarrow> (nat \<times> 'a) option" where
  "lock_streamer reg objs block_id =
     (case map_of reg block_id of
        None \<Rightarrow> None
      | Some w \<Rightarrow> (case objs w of None \<Rightarrow> None | Some obj \<Rightarrow> Some (w, obj)))"

subsection \<open>Setters of the collaborators\<close>

text \<open>
  Modelled from the spec: the setters of the streamers ("set tick rate", "set sample
  rate", "set scale factor"), the mux setters of the radio peripherals and the
  property tree's set are defined elsewhere in the library. Each stores its
  argument in the object it is called on and is entered in the log. A setter called
  through an address that holds no object does not occur: the source calls setters
  only on a pointer it has found to be non-null.
\<close>

definition rx_set_tick_rate :: "nat \<Rightarrow> double \<Rightarrow> x300_impl \<Rightarrow> x300_impl" where
  "rx_set_tick_rate a r s =
     s\<lparr>m_rx_objs := (m_rx_objs s)(a := map_option (\<lambda>obj. obj\<lparr>rx_tick_rate := r\<rparr>) (m_rx_objs s a)),
       calls := calls s @ [Rx_set_tick_rate a r]\<rparr>"

definition rx_set_samp_rate :: "nat \<Rightarrow> double \<Rightarrow> x300_impl \<Rightarrow> x300_impl" where
  "rx_set_samp_rate a r s =
     s\<lparr>m_rx_objs := (m_rx_objs s)(a := map_option (\<lambda>obj. obj\<lparr>rx_samp_rate := r\<rparr>) (m_rx_objs s a)),
       calls := calls s @ [Rx_set_samp_rate a r]\<rparr>"

definition rx_set_scale_factor :: "nat \<Rightarrow> double \<Rightarrow> x300_impl \<Rightarrow> x300_impl" where
  "rx_set_scale_factor a r s =
     s\<lparr>m_rx_objs := (m_rx_objs s)(a := map_option (\<lambda>obj. obj\<lparr>rx_scale_factor := r\<rparr>) (m_rx_objs s a)),
       calls := calls s @ [Rx_set_scale_factor a r]\<rparr>"

definition tx_set_tick_rate :: "nat \<Rightarrow> double \<Rightarrow> x300_impl \<Rightarrow> x300_impl" where
  "tx_set_tick_rate a r s =
     s\<lparr>m_tx_objs := (m_tx_objs s)(a := map_option (\<lambda>obj. obj\<lparr>tx_tick_rate := r\<rparr>) (m_tx_objs s a)),
       calls := calls s @ [Tx_set_tick_rate a r]\<rparr>"

definition tx_set_samp_rate :: "nat \<Rightarrow> double \<Rightarrow> x300_impl \<Rightarrow> x300_impl" where
  "tx_set_samp_rate a r s =
     s\<lparr>m_tx_objs := (m_tx_objs s)(a := map_option (\<lambda>obj. obj\<lparr>tx_samp_rate := r\<rparr>) (m_tx_objs s a)),
       calls := calls s @ [Tx_set_samp_rate a r]\<rparr>"

definition tx_set_scale_factor :: "nat \<Rightarrow> double \<Rightarrow> x300_impl \<Rightarrow> x300_impl" where
  "tx_set_scale_factor a r s =
     s\<lparr>m_tx_objs := (m_tx_objs s)(a := map_option (\<lambda>obj. obj\<lparr>tx_scale_factor := r\<rparr>) (m_tx_objs s a)),
       calls := calls s @ [Tx_set_scale_factor a r]\<rparr>"

definition update_perif :: "nat \<Rightarrow> nat \<Rightarrow> (radio_perifs_t \<Rightarrow> radio_perifs_t) \<Rightarrow> x300_impl \<Rightarrow> x300_impl" where
  "update_perif mb_i radio_idx f s =
     s\<lparr>m_mb := (m_mb s)[mb_i :=
          (m_mb s ! mb_i)\<lparr>radio_perifs :=
             (radio_perifs (m_mb s ! mb_i))[radio_idx := f (radio_perifs (m_mb s ! mb_i) ! radio_idx)]\<rparr>]\<rparr>"

definition tx_fe_set_mux :: "nat \<Rightarrow> nat \<Rightarrow> string \<Rightarrow> x300_impl \<Rightarrow> x300_impl" where
  "tx_fe_set_mux mb_i radio_idx conn s =
     (update_perif mb_i radio_idx (\<lambda>p. p\<lparr>tx_fe_mux := Some conn\<rparr>) s)
       \<lparr>calls := calls s @ [Tx_fe_set_mux mb_i radio_idx conn]\<rparr>"

definition ddc_set_mux :: "nat \<Rightarrow> nat \<Rightarrow> string \<Rightarrow> bool \<Rightarrow> x300_impl \<Rightarrow> x300_impl" where
  "ddc_set_mux mb_i radio_idx conn fe_swapped s =
     (update_perif mb_i radio_idx (\<lambda>p. p\<lparr>ddc_mux := Some (conn, fe_swapped)\<rparr>) s)
       \<lparr>calls := calls s @ [Ddc_set_mux mb_i radio_idx conn fe_swapped]\<rparr>"

definition rx_fe_set_mux :: "nat \<Rightarrow> nat \<Rightarrow> bool \<Rightarrow> x300_impl \<Rightarrow> x300_impl" where
  "rx_fe_set_mux mb_i radio_idx fe_swapped s =
     (update_perif mb_i radio_idx (\<lambda>p. p\<lparr>rx_fe_mux := Some fe_swapped\<rparr>) s)
       \<lparr>calls := calls s @ [Rx_fe_set_mux mb_i radio_idx fe_swapped]\<rparr>"

definition tree_set_vec :: "string \<Rightarrow> nat list \<Rightarrow> x300_impl \<Rightarrow> x300_impl" where
  "tree_set_vec path v s =
     s\<lparr>m_tree_vec := (m_tree_vec s)(path \<mapsto> v),
       calls := calls s @ [Tree_set_chan_dsp_mapping path v]\<rparr>"

section \<open>Update streamer rates\<close>

text \<open>
  \<^verbatim>\<open>x300_impl::update_tick_rate\<close>. The parameter \<open>get_device_no\<close> stands for
  \<^verbatim>\<open>rfnoc::block_id_t(block_id).get_device_no()\<close>, whose class is declared elsewhere
  in the library; it is applied to keys of the registries only. There is one
  step function per loop body, and the loop over \<^verbatim>\<open>keys()\<close> is a left fold. The
  status messages written with \<^verbatim>\<open>UHD_MSG\<close> are output only and are left out, here
  and below.
\<close>

definition rx_tick_step :: "(string \<Rightarrow> nat) \<Rightarrow> nat \<Rightarrow> x300_impl \<Rightarrow> string \<Rightarrow> x300_impl" where
  "rx_tick_step get_device_no mb_index s block_id =
     (if get_device_no block_id \<noteq> mb_index then s
      else
        (case lock_streamer (m_rx_streamers s) (m_rx_objs s) block_id of
           None \<Rightarrow> s
         | Some (a, my_streamer) \<Rightarrow>
             (let tick_rate = rx_term_tick_rate my_streamer;
                  samp_rate = rx_term_output_samp_rate my_streamer
              in rx_set_samp_rate a samp_rate (rx_set_tick_rate a tick_rate s))))"

definition tx_tick_step :: "(string \<Rightarrow> nat) \<Rightarrow> nat \<Rightarrow> double \<Rightarrow> x300_impl \<Rightarrow> string \<Rightarrow> x300_impl" where
  "tx_tick_step get_device_no mb_index rate s block_id =
     (if get_device_no block_id \<noteq> mb_index then s
      else
        (case lock_streamer (m_tx_streamers s) (m_tx_objs s) block_id of
           None \<Rightarrow> s
         | Some (a, my_streamer) \<Rightarrow>
             tx_set_samp_rate a rate (tx_set_tick_rate a rate s)))"

definition update_tick_rate :: "(string \<Rightarrow> nat) \<Rightarrow> nat \<Rightarrow> double \<Rightarrow> x300_impl \<Rightarrow> x300_impl" where
  "update_tick_rate get_device_no mb_index rate s =
     (let s1 = foldl (rx_tick_step get_device_no mb_index) s (dict_keys (m_rx_streamers s))
      in foldl (tx_tick_step get_device_no mb_index rate) s1 (dict_keys (m_tx_streamers s1)))"

text \<open>
  \<^verbatim>\<open>x300_impl::update_rx_samp_rate\<close> and \<^verbatim>\<open>x300_impl::update_tx_samp_rate\<close>. The
  motherboard \<open>mb\<close> is the reference the caller passes. The result is the exception
  raised, if any, and the state reached.
\<close>

definition update_rx_samp_rate :: "x300_impl \<Rightarrow> mboard_members_t \<Rightarrow> nat \<Rightarrow> double \<Rightarrow> error option \<times> x300_impl" where
  "update_rx_samp_rate s mb dspno rate =
     (let radio_block_id = ''Radio_'' @ string_of_nat dspno in
      if \<not> dict_has_key (m_rx_streamers s) radio_block_id then (None, s)
      else
        (case lock_streamer (m_rx_streamers s) (m_rx_objs s) radio_block_id of
           None \<Rightarrow> (None, s)
         | Some (a, my_streamer) \<Rightarrow>
             (let s1 = rx_set_samp_rate a rate s in
              if dspno < length (radio_perifs mb) then
                (let adj = ddc_scaling_adjustment (radio_perifs mb ! dspno)
                 in (None, rx_set_scale_factor a adj s1))
              else (Some Undefined_behaviour, s1))))"

definition update_tx_samp_rate :: "x300_impl \<Rightarrow> mboard_members_t \<Rightarrow> nat \<Rightarrow> double \<Rightarrow> error option \<times> x300_impl" where
  "update_tx_samp_rate s mb dspno rate =
     (let radio_block_id = ''Radio_'' @ string_of_nat dspno in
      if \<not> dict_has_key (m_tx_streamers s) radio_block_id then (None, s)
      else
        (case lock_streamer (m_tx_streamers s) (m_tx_objs s) radio_block_id of
           None \<Rightarrow> (None, s)
         | Some (a, my_streamer) \<Rightarrow>
             (let s1 = tx_set_samp_rate a rate s in
              if dspno < length (radio_perifs mb) then
                (let adj = duc_scaling_adjustment (radio_perifs mb ! dspno)
                 in (None, tx_set_scale_factor a adj s1))
              else (Some Undefined_behaviour, s1))))"

section \<open>Setup dboard muxing for IQ\<close>

definition connection_path :: "string \<Rightarrow> string \<Rightarrow> subdev_spec_pair_t \<Rightarrow> string" where
  "connection_path mb_root tx_rx p =
     fs_path_div (fs_path_div (fs_path_div (fs_path_div (fs_path_div mb_root ''dboards'')
       (db_name p)) (tx_rx @ ''_frontends'')) (sd_name p)) ''connection''"

text \<open>
  Modelled from the spec: \<^verbatim>\<open>validate_subdev_spec\<close> (defined elsewhere in the
  library) is the hardware-compatibility check "confirming every named
  daughterboard/subdevice pair actually exists and is wired for direction on this
  motherboard". A pair exists for a direction when the property tree holds the
  frontend of that direction under the pair's names. \<open>True\<close> is a normal return,
  \<open>False\<close> an exception.
\<close>

definition validate_subdev_spec :: "(string \<rightharpoonup> string) \<Rightarrow> subdev_spec_t \<Rightarrow> string \<Rightarrow> string \<Rightarrow> bool" where
  "validate_subdev_spec tree spec tx_rx mb_name =
     list_all (\<lambda>p. tree (connection_path (''/mboards/'' @ mb_name) tx_rx p) \<noteq> None) spec"

text \<open>
  The loop of \<^verbatim>\<open>update_subdev_spec\<close> over the entries of the spec, by index as in
  the source. It returns the exception raised, if any, the state reached and the
  vector \<^verbatim>\<open>chan_to_dsp_map\<close>. It is entered only with \<open>mb_i\<close> in range, after
  the assertion at the head of \<^verbatim>\<open>update_subdev_spec\<close>.
\<close>

function mux_loop :: "string \<Rightarrow> nat \<Rightarrow> subdev_spec_t \<Rightarrow> nat \<Rightarrow> nat list \<Rightarrow> x300_impl
    \<Rightarrow> error option \<times> x300_impl \<times> nat list" where
  "mux_loop tx_rx mb_i spec i chan_to_dsp_map s =
     (if i < length spec then
        (let radio_idx = get_radio_index (m_mb s ! mb_i) (db_name (spec ! i));
             chan = chan_to_dsp_map[i := radio_idx]
         in
           (case m_tree_str s (connection_path (''/mboards/'' @ string_of_nat mb_i) tx_rx (spec ! i)) of
              None \<Rightarrow> (Some Lookup_error, s, chan)
            | Some conn \<Rightarrow>
                if \<not> radio_idx < length (radio_perifs (m_mb s ! mb_i))
                then (Some Undefined_behaviour, s, chan)
                else if tx_rx = ''tx''
                then mux_loop tx_rx mb_i spec (Suc i) chan (tx_fe_set_mux mb_i radio_idx conn s)
                else
                  (let fe_swapped = (conn = ''QI'' \<or> conn = ''Q'')
                   in mux_loop tx_rx mb_i spec (Suc i) chan
                        (rx_fe_set_mux mb_i radio_idx fe_swapped
                          (ddc_set_mux mb_i radio_idx conn fe_swapped s)))))
      else (None, s, chan_to_dsp_map))"
  by pat_completeness auto
termination
  by (relation "measure (\<lambda>(tx_rx, mb_i, spec, i, chan_to_dsp_map, s). length spec - i)") auto

declare mux_loop.simps [simp del]

text \<open>\<^verbatim>\<open>x300_impl::update_subdev_spec\<close>.\<close>

definition update_subdev_spec :: "string \<Rightarrow> nat \<Rightarrow> subdev_spec_t \<Rightarrow> x300_impl \<Rightarrow> error option \<times> x300_impl" where
  "update_subdev_spec tx_rx mb_i spec s =
     (if \<not> (tx_rx = ''tx'' \<or> tx_rx = ''rx'') then (Some Assertion_error, s)
      else if \<not> mb_i < length (m_mb s) then (Some Assertion_error, s)
      else
        (let mb_name = string_of_nat mb_i;
             mb_root = ''/mboards/'' @ mb_name
         in
           if \<not> validate_subdev_spec (m_tree_str s) spec tx_rx mb_name then (Some Value_error, s)
           else if \<not> length spec \<le> 2 then (Some Assertion_error, s)
           else if length spec = 1 \<and> \<not> (db_name (spec ! 0) = ''A'' \<or> db_name (spec ! 0) = ''B'')
           then (Some Assertion_error, s)
           else if length spec = 2 \<and>
                   \<not> ((db_name (spec ! 0) = ''A'' \<and> db_name (spec ! 1) = ''B'') \<or>
                      (db_name (spec ! 0) = ''B'' \<and> db_name (spec ! 1) = ''A''))
           then (Some Assertion_error, s)
           else
             (case mux_loop tx_rx mb_i spec 0 (replicate (length spec) 0) s of
                (Some e, s', chan_to_dsp_map) \<Rightarrow> (Some e, s')
              | (None, s', chan_to_dsp_map) \<Rightarrow>
                  (None, tree_set_vec (fs_path_div mb_root (tx_rx @ ''_chan_dsp_mapping''))
                           chan_to_dsp_map s'))))"

section \<open>Hooks for get_tx_stream() and get_rx_stream()\<close>

text \<open>
  The branches of the conditional compilation in \<^verbatim>\<open>get_rx_hints\<close> are selected by
  the platform macro that is defined; \<open>Platform_other\<close> is a build in which none of
  the four is. The two buffer sizes are constants of a header elsewhere in the
  library and are parameters here.
\<close>

datatype platform =
    UHD_PLATFORM_MACOS
  | UHD_PLATFORM_BSD
  | UHD_PLATFORM_LINUX
  | UHD_PLATFORM_WIN32
  | Platform_other

definition get_rx_hints :: "platform \<Rightarrow> nat \<Rightarrow> nat \<Rightarrow> x300_impl \<Rightarrow> nat \<Rightarrow> error + device_addr_t" where
  "get_rx_hints plat X300_RX_SW_BUFF_SIZE_ETH X300_RX_SW_BUFF_SIZE_ETH_MACOS s mb_index =
     (if \<not> mb_index < length (m_mb s) then Inl Undefined_behaviour
      else
        (let rx_hints = recv_args (m_mb s ! mb_index) in
         if \<not> dict_has_key rx_hints ''recv_buff_size'' then
           (if xport_path (m_mb s ! mb_index) \<noteq> ''nirio'' then
              (if plat = UHD_PLATFORM_MACOS \<or> plat = UHD_PLATFORM_BSD
               then Inr (dict_set rx_hints ''recv_buff_size'' (string_of_nat X300_RX_SW_BUFF_SIZE_ETH_MACOS))
               else if plat = UHD_PLATFORM_LINUX \<or> plat = UHD_PLATFORM_WIN32
               then Inr (dict_set rx_hints ''recv_buff_size'' (string_of_nat X300_RX_SW_BUFF_SIZE_ETH))
               else Inr rx_hints)
            else Inr rx_hints)
         else Inr rx_hints))"

definition get_tx_hints :: "x300_impl \<Rightarrow> nat \<Rightarrow> error + device_addr_t" where
  "get_tx_hints s mb_index =
     (if \<not> mb_index < length (m_mb s) then Inl Undefined_behaviour
      else Inr (send_args (m_mb s ! mb_index)))"

text \<open>
  The inner loop of \<^verbatim>\<open>post_streamer_hooks\<close>: the radio peripherals of the radio
  control blocks found, each addressed as \<^verbatim>\<open>_mb[device_no].radio_perifs[block_count]\<close>.
\<close>

fun collect_radios :: "mboard_members_t list \<Rightarrow> (nat \<times> nat) list \<Rightarrow> (nat \<times> nat) list
    \<Rightarrow> error + (nat \<times> nat) list" where
  "collect_radios mbs [] radios = Inr radios"
| "collect_radios mbs ((device_no, block_count) # radio_ctrl_blks) radios =
     (if device_no < length mbs \<and> block_count < length (radio_perifs (mbs ! device_no))
      then collect_radios mbs radio_ctrl_blks (radios @ [(device_no, block_count)])
      else Inl Undefined_behaviour)"

text \<open>
  The outer loop over \<^verbatim>\<open>_tx_streamers.vals()\<close>. The parameter \<open>synchronize_dacs\<close>
  stands for \<^verbatim>\<open>x300_impl::synchronize_dacs\<close>, defined elsewhere in the library:
  it returns \<open>None\<close> when the call returns and the exception otherwise. Only
  \<^verbatim>\<open>uhd::io_error\<close> is caught, and it is thrown again with a new message.
\<close>

fun sync_loop :: "((nat \<times> nat) list \<Rightarrow> error option) \<Rightarrow> x300_impl \<Rightarrow> nat list \<Rightarrow> error option \<times> x300_impl" where
  "sync_loop synchronize_dacs s [] = (None, s)"
| "sync_loop synchronize_dacs s (streamer_w # ws) =
     (case m_tx_objs s streamer_w of
        None \<Rightarrow> sync_loop synchronize_dacs s ws
      | Some streamer \<Rightarrow>
          (case collect_radios (m_mb s) (tx_downstream_radios streamer) [] of
             Inl e \<Rightarrow> (Some e, s)
           | Inr radios \<Rightarrow>
               (let s1 = s\<lparr>calls := calls s @ [Synchronize_dacs radios]\<rparr> in
                case synchronize_dacs radios of
                  None \<Rightarrow> sync_loop synchronize_dacs s1 ws
                | Some (Io_error what) \<Rightarrow>
                    (Some (Io_error (''Failed to sync DACs! '' @ what @ '' '')), s1)
                | Some e \<Rightarrow> (Some e, s1))))"

definition post_streamer_hooks :: "((nat \<times> nat) list \<Rightarrow> error option) \<Rightarrow> bool \<Rightarrow> x300_impl \<Rightarrow> error option \<times> x300_impl" where
  "post_streamer_hooks synchronize_dacs is_tx s =
     (if \<not> is_tx then (None, s)
      else sync_loop synchronize_dacs s (dict_vals (m_tx_streamers s)))"

section \<open>Notions used in the statements\<close>

text \<open>
  What \<^verbatim>\<open>update_tick_rate\<close> does to one endpoint: a receive endpoint is set to the
  rates its own terminator reports, a transmit endpoint to the rate supplied.
\<close>

definition rx_refresh :: "recv_packet_streamer \<Rightarrow> recv_packet_streamer" where
  "rx_refresh obj = obj\<lparr>rx_tick_rate := rx_term_tick_rate obj, rx_samp_rate := rx_term_output_samp_rate obj\<rparr>"

definition tx_apply :: "double \<Rightarrow> send_packet_streamer \<Rightarrow> send_packet_streamer" where
  "tx_apply rate obj = obj\<lparr>tx_tick_rate := rate, tx_samp_rate := rate\<rparr>"

text \<open>
  The calls one loop iteration of \<^verbatim>\<open>update_tick_rate\<close> makes for a registry key.
\<close>

definition rx_tick_calls :: "(string \<Rightarrow> nat) \<Rightarrow> nat \<Rightarrow> x300_impl \<Rightarrow> string \<Rightarrow> call list" where
  "rx_tick_calls g mb s k =
     (if g k \<noteq> mb then []
      else (case lock_streamer (m_rx_streamers s) (m_rx_objs s) k of
              None \<Rightarrow> []
            | Some (a, obj) \<Rightarrow>
                [Rx_set_tick_rate a (rx_term_tick_rate obj),
                 Rx_set_samp_rate a (rx_term_output_samp_rate obj)]))"

definition tx_tick_calls :: "(string \<Rightarrow> nat) \<Rightarrow> nat \<Rightarrow> double \<Rightarrow> x300_impl \<Rightarrow> string \<Rightarrow> call list" where
  "tx_tick_calls g mb r s k =
     (if g k \<noteq> mb then []
      else (case lock_streamer (m_tx_streamers s) (m_tx_objs s) k of
              None \<Rightarrow> []
            | Some (a, obj) \<Rightarrow> [Tx_set_tick_rate a r, Tx_set_samp_rate a r]))"

text \<open>
  For an entry of a subdevice spec: the radio index its daughterboard name resolves
  to, the connection string of its frontend, and whether the loop of
  \<^verbatim>\<open>update_subdev_spec\<close> gets past it (the connection exists and the radio index
  addresses a radio peripheral).
\<close>

definition radio_idx_of :: "x300_impl \<Rightarrow> nat \<Rightarrow> subdev_spec_pair_t \<Rightarrow> nat" where
  "radio_idx_of s mb_i p = get_radio_index (m_mb s ! mb_i) (db_name p)"

definition conn_of :: "x300_impl \<Rightarrow> string \<Rightarrow> nat \<Rightarrow> subdev_spec_pair_t \<Rightarrow> string" where
  "conn_of s tx_rx mb_i p =
     the (m_tree_str s (connection_path (''/mboards/'' @ string_of_nat mb_i) tx_rx p))"

definition entry_ok :: "x300_impl \<Rightarrow> string \<Rightarrow> nat \<Rightarrow> subdev_spec_pair_t \<Rightarrow> bool" where
  "entry_ok s tx_rx mb_i p =
     (m_tree_str s (connection_path (''/mboards/'' @ string_of_nat mb_i) tx_rx p) \<noteq> None \<and>
      radio_idx_of s mb_i p < length (radio_perifs (m_mb s ! mb_i)))"

text \<open>
  The mux programming of one entry, of a whole spec, and the calls it consists of.
\<close>

definition mux_program :: "string \<Rightarrow> nat \<Rightarrow> nat \<Rightarrow> string \<Rightarrow> x300_impl \<Rightarrow> x300_impl" where
  "mux_program tx_rx mb_i radio_idx conn s =
     (if tx_rx = ''tx'' then tx_fe_set_mux mb_i radio_idx conn s
      else rx_fe_set_mux mb_i radio_idx (conn = ''QI'' \<or> conn = ''Q'')
             (ddc_set_mux mb_i radio_idx conn (conn = ''QI'' \<or> conn = ''Q'') s))"

fun mux_all :: "string \<Rightarrow> nat \<Rightarrow> subdev_spec_t \<Rightarrow> x300_impl \<Rightarrow> x300_impl" where
  "mux_all tx_rx mb_i [] s = s"
| "mux_all tx_rx mb_i (p # ps) s =
     mux_all tx_rx mb_i ps
       (mux_program tx_rx mb_i (radio_idx_of s mb_i p) (conn_of s tx_rx mb_i p) s)"

definition entry_calls :: "string \<Rightarrow> nat \<Rightarrow> x300_impl \<Rightarrow> subdev_spec_pair_t \<Rightarrow> call list" where
  "entry_calls tx_rx mb_i s p =
     (if tx_rx = ''tx''
      then [Tx_fe_set_mux mb_i (radio_idx_of s mb_i p) (conn_of s tx_rx mb_i p)]
      else [Ddc_set_mux mb_i (radio_idx_of s mb_i p) (conn_of s tx_rx mb_i p)
              (conn_of s tx_rx mb_i p = ''QI'' \<or> conn_of s tx_rx mb_i p = ''Q''),
            Rx_fe_set_mux mb_i (radio_idx_of s mb_i p)
              (conn_of s tx_rx mb_i p = ''QI'' \<or> conn_of s tx_rx mb_i p = ''Q'')])"

text \<open>
  The checks at the head of \<^verbatim>\<open>update_subdev_spec\<close>, taken together.
\<close>

definition checks_pass :: "string \<Rightarrow> nat \<Rightarrow> subdev_spec_t \<Rightarrow> x300_impl \<Rightarrow> bool" where
  "checks_pass tx_rx mb_i spec s =
     ((tx_rx = ''tx'' \<or> tx_rx = ''rx'') \<and> mb_i < length (m_mb s) \<and>
      validate_subdev_spec (m_tree_str s) spec tx_rx (string_of_nat mb_i) \<and>
      length spec \<le> 2 \<and>
      (length spec = 1 \<longrightarrow> db_name (spec ! 0) = ''A'' \<or> db_name (spec ! 0) = ''B'') \<and>
      (length spec = 2 \<longrightarrow>
         (db_name (spec ! 0) = ''A'' \<and> db_name (spec ! 1) = ''B'') \<or>
         (db_name (spec ! 0) = ''B'' \<and> db_name (spec ! 1) = ''A'')))"

text \<open>
  The radio control blocks of a group address existing radio peripherals; the groups
  of the endpoints that are alive, in the order of the registry.
\<close>

definition radios_in_range :: "mboard_members_t list \<Rightarrow> (nat \<times> nat) list \<Rightarrow> bool" where
  "radios_in_range mbs blks =
     list_all (\<lambda>(device_no, block_count).
        device_no < length mbs \<and> block_count < length (radio_perifs (mbs ! device_no))) blks"

definition live_groups :: "x300_impl \<Rightarrow> nat list \<Rightarrow> (nat \<times> nat) list list" where
  "live_groups s ws = List.map_filter (\<lambda>w. map_option tx_downstream_radios (m_tx_objs s w)) ws"

section \<open>An example configuration\<close>

text \<open>
  Two motherboards with two radios each. The registries hold, in this order, a live
  endpoint of motherboard 0, an endpoint whose weak pointer has expired, and a live
  endpoint of motherboard 1. The transmit endpoint of motherboard 0 feeds three radios
  on two motherboards.
\<close>

definition ex_rx :: recv_packet_streamer where
  "ex_rx = \<lparr>rx_term_tick_rate = 200, rx_term_output_samp_rate = 10,
            rx_tick_rate = 0, rx_samp_rate = 0, rx_scale_factor = 1\<rparr>"

definition ex_tx :: send_packet_streamer where
  "ex_tx = \<lparr>tx_tick_rate = 0, tx_samp_rate = 0, tx_scale_factor = 1,
            tx_downstream_radios = [(0, 0), (0, 1), (1, 0)]\<rparr>"

definition ex_tx1 :: send_packet_streamer where
  "ex_tx1 = \<lparr>tx_tick_rate = 0, tx_samp_rate = 0, tx_scale_factor = 1,
             tx_downstream_radios = [(1, 1)]\<rparr>"

definition ex_perif :: radio_perifs_t where
  "ex_perif = \<lparr>ddc_scaling_adjustment = 2, duc_scaling_adjustment = 3,
               ddc_mux = None, rx_fe_mux = None, tx_fe_mux = None\<rparr>"

definition ex_mboard :: mboard_members_t where
  "ex_mboard = \<lparr>radio_perifs = [ex_perif, ex_perif],
                get_radio_index = (\<lambda>name. if name = ''A'' then 0 else 1),
                recv_args = [], send_args = [(''send_frame_size'', ''8000'')],
                xport_path = ''eth''\<rparr>"

definition ex_mboard2 :: mboard_members_t where
  "ex_mboard2 = \<lparr>radio_perifs = [ex_perif\<lparr>ddc_scaling_adjustment := 7, duc_scaling_adjustment := 9\<rparr>],
                 get_radio_index = (\<lambda>name. 0),
                 recv_args = [(''recv_buff_size'', ''4096'')], send_args = [],
                 xport_path = ''nirio''\<rparr>"

definition ex_tree :: "string \<rightharpoonup> string" where
  "ex_tree = [''/mboards/0/dboards/A/rx_frontends/0/connection'' \<mapsto> ''IQ'',
              ''/mboards/0/dboards/B/rx_frontends/0/connection'' \<mapsto> ''QI'',
              ''/mboards/0/dboards/A/tx_frontends/0/connection'' \<mapsto> ''IQ'',
              ''/mboards/0/dboards/B/tx_frontends/0/connection'' \<mapsto> ''QI'']"

definition ex_state :: x300_impl where
  "ex_state = \<lparr>m_mb = [ex_mboard, ex_mboard], m_tree_str = ex_tree, m_tree_vec = Map.empty,
               m_rx_streamers = [(''Radio_0'', 10), (''0/Radio_1'', 12), (''1/Radio_0'', 11)],
               m_tx_streamers = [(''Radio_0'', 20), (''0/Radio_1'', 22), (''1/Radio_0'', 21)],
               m_rx_objs = [10 \<mapsto> ex_rx, 11 \<mapsto> ex_rx],
               m_tx_objs = [20 \<mapsto> ex_tx, 21 \<mapsto> ex_tx1],
               calls = []\<rparr>"

definition ex_device_no :: "string \<Rightarrow> nat" where
  "ex_device_no block_id = (if block_id = ''1/Radio_0'' then 1 else 0)"

definition ex_spec :: subdev_spec_t where
  "ex_spec = [\<lparr>db_name = ''A'', sd_name = ''0''\<rparr>, \<lparr>db_name = ''B'', sd_name = ''0''\<rparr>]"

definition ex_sync_ok :: "(nat \<times> nat) list \<Rightarrow> error option" where
  "ex_sync_ok radios = None"

definition ex_sync_first_fails :: "(nat \<times> nat) list \<Rightarrow> error option" where
  "ex_sync_first_fails radios =
     (if radios = [(0, 0), (0, 1), (1, 0)] then Some (Io_error ''timeout'') else None)"

definition ex_sync_second_fails :: "(nat \<times> nat) list \<Rightarrow> error option" where
  "ex_sync_second_fails radios =
     (if radios = [(1, 1)] then Some (Io_error ''timeout'') else None)"

section \<open>Basic facts\<close>

lemma string_of_nat_0: "string_of_nat 0 = ''0''"
  by (simp add: string_of_nat.simps digit_char_def)

lemma string_of_nat_1: "string_of_nat (Suc 0) = ''1''"
  by (simp add: string_of_nat.simps digit_char_def)

lemma dict_set_absent: "\<not> dict_has_key d k \<Longrightarrow> dict_set d k v = d @ [(k, v)]"
  by (induction d) (auto simp: dict_has_key_def)

lemma lock_streamer_has_key:
  "lock_streamer reg objs k = Some (a, obj) \<Longrightarrow> dict_has_key reg k"
  by (auto simp add: lock_streamer_def dict_has_key_def split: option.splits)

lemma lock_streamer_obj:
  "lock_streamer reg objs k = Some (a, obj) \<Longrightarrow> objs a = Some obj"
  by (auto simp add: lock_streamer_def split: option.splits)

subsection \<open>The example configuration evaluated\<close>

lemma ex_state_lock_rx:
  "lock_streamer (m_rx_streamers ex_state) (m_rx_objs ex_state) ''Radio_0'' = Some (10, ex_rx)"
  "lock_streamer (m_rx_streamers ex_state) (m_rx_objs ex_state) ''0/Radio_1'' = None"
  "lock_streamer (m_rx_streamers ex_state) (m_rx_objs ex_state) ''1/Radio_0'' = Some (11, ex_rx)"
  "lock_streamer (m_rx_streamers ex_state) (m_rx_objs ex_state) ''Radio_1'' = None"
  by (simp_all add: lock_streamer_def ex_state_def)

lemma ex_state_lock_tx:
  "lock_streamer (m_tx_streamers ex_state) (m_tx_objs ex_state) ''Radio_0'' = Some (20, ex_tx)"
  "lock_streamer (m_tx_streamers ex_state) (m_tx_objs ex_state) ''0/Radio_1'' = None"
  "lock_streamer (m_tx_streamers ex_state) (m_tx_objs ex_state) ''1/Radio_0'' = Some (21, ex_tx1)"
  "lock_streamer (m_tx_streamers ex_state) (m_tx_objs ex_state) ''Radio_1'' = None"
  by (simp_all add: lock_streamer_def ex_state_def)

lemma ex_mboard_perifs:
  "length (radio_perifs ex_mboard) = 2"
  "ddc_scaling_adjustment (radio_perifs ex_mboard ! 0) = 2"
  "duc_scaling_adjustment (radio_perifs ex_mboard ! 0) = 3"
  by (simp_all add: ex_mboard_def ex_perif_def)

lemma ex_state_calls: "calls ex_state = []"
  by (simp add: ex_state_def)

lemmas path_eval = connection_path_def fs_path_div_def string_of_nat_0

lemma ex_tree_vals:
  "ex_tree ''/mboards/0/dboards/A/rx_frontends/0/connection'' = Some ''IQ''"
  "ex_tree ''/mboards/0/dboards/B/rx_frontends/0/connection'' = Some ''QI''"
  "ex_tree ''/mboards/0/dboards/A/tx_frontends/0/connection'' = Some ''IQ''"
  "ex_tree ''/mboards/0/dboards/B/tx_frontends/0/connection'' = Some ''QI''"
  "ex_tree ''/mboards/0/dboards/B/rx_frontends/1/connection'' = None"
  "ex_tree ''/mboards/0/dboards/A/rx_frontends/1/connection'' = None"
  by (simp_all add: ex_tree_def)

lemma ex_state_fields:
  "m_tree_str ex_state = ex_tree"
  "length (m_mb ex_state) = 2"
  "m_mb ex_state ! 0 = ex_mboard"
  by (simp_all add: ex_state_def)

lemma ex_mboard_index:
  "get_radio_index ex_mboard ''A'' = 0"
  "get_radio_index ex_mboard ''B'' = 1"
  by (simp_all add: ex_mboard_def)

section \<open>Properties of update_tick_rate\<close>

lemma rx_refresh_idem: "map_option rx_refresh (map_option rx_refresh x) = map_option rx_refresh x"
  by (cases x) (simp_all add: rx_refresh_def)

lemma tx_apply_idem: "map_option (tx_apply r) (map_option (tx_apply r) x) = map_option (tx_apply r) x"
  by (cases x) (simp_all add: tx_apply_def)

lemma rx_tick_step_frame:
  "m_rx_streamers (rx_tick_step g mb s k) = m_rx_streamers s"
  "m_tx_streamers (rx_tick_step g mb s k) = m_tx_streamers s"
  "m_tx_objs (rx_tick_step g mb s k) = m_tx_objs s"
  "m_mb (rx_tick_step g mb s k) = m_mb s"
  "m_tree_str (rx_tick_step g mb s k) = m_tree_str s"
  "m_tree_vec (rx_tick_step g mb s k) = m_tree_vec s"
  by (simp_all add: rx_tick_step_def lock_streamer_def rx_set_tick_rate_def rx_set_samp_rate_def Let_def
      split: option.splits)

lemma tx_tick_step_frame:
  "m_rx_streamers (tx_tick_step g mb r s k) = m_rx_streamers s"
  "m_tx_streamers (tx_tick_step g mb r s k) = m_tx_streamers s"
  "m_rx_objs (tx_tick_step g mb r s k) = m_rx_objs s"
  "m_mb (tx_tick_step g mb r s k) = m_mb s"
  "m_tree_str (tx_tick_step g mb r s k) = m_tree_str s"
  "m_tree_vec (tx_tick_step g mb r s k) = m_tree_vec s"
  by (simp_all add: tx_tick_step_def lock_streamer_def tx_set_tick_rate_def tx_set_samp_rate_def
      split: option.splits)

lemma rx_tick_step_objs:
  "m_rx_objs (rx_tick_step g mb s k) a =
     (if g k = mb \<and> map_of (m_rx_streamers s) k = Some a
      then map_option rx_refresh (m_rx_objs s a) else m_rx_objs s a)"
  by (auto simp add: rx_tick_step_def lock_streamer_def rx_set_tick_rate_def rx_set_samp_rate_def Let_def
      rx_refresh_def split: option.splits)

lemma tx_tick_step_objs:
  "m_tx_objs (tx_tick_step g mb r s k) a =
     (if g k = mb \<and> map_of (m_tx_streamers s) k = Some a
      then map_option (tx_apply r) (m_tx_objs s a) else m_tx_objs s a)"
  by (auto simp add: tx_tick_step_def lock_streamer_def tx_set_tick_rate_def tx_set_samp_rate_def
      tx_apply_def split: option.splits)

lemma rx_fold_frame:
  "m_rx_streamers (foldl (rx_tick_step g mb) s ks) = m_rx_streamers s"
  "m_tx_streamers (foldl (rx_tick_step g mb) s ks) = m_tx_streamers s"
  "m_tx_objs (foldl (rx_tick_step g mb) s ks) = m_tx_objs s"
  "m_mb (foldl (rx_tick_step g mb) s ks) = m_mb s"
  "m_tree_str (foldl (rx_tick_step g mb) s ks) = m_tree_str s"
  "m_tree_vec (foldl (rx_tick_step g mb) s ks) = m_tree_vec s"
  by (induction ks rule: rev_induct) (simp_all add: rx_tick_step_frame)

lemma tx_fold_frame:
  "m_rx_streamers (foldl (tx_tick_step g mb r) s ks) = m_rx_streamers s"
  "m_tx_streamers (foldl (tx_tick_step g mb r) s ks) = m_tx_streamers s"
  "m_rx_objs (foldl (tx_tick_step g mb r) s ks) = m_rx_objs s"
  "m_mb (foldl (tx_tick_step g mb r) s ks) = m_mb s"
  "m_tree_str (foldl (tx_tick_step g mb r) s ks) = m_tree_str s"
  "m_tree_vec (foldl (tx_tick_step g mb r) s ks) = m_tree_vec s"
  by (induction ks rule: rev_induct) (simp_all add: tx_tick_step_frame)

lemma rx_fold_objs:
  "m_rx_objs (foldl (rx_tick_step g mb) s ks) a =
     (if \<exists>k\<in>set ks. g k = mb \<and> map_of (m_rx_streamers s) k = Some a
      then map_option rx_refresh (m_rx_objs s a) else m_rx_objs s a)"
proof (induction ks rule: rev_induct)
  case Nil
  show ?case by simp
next
  case (snoc k ks)
  show ?case
    using snoc.IH
    by (auto simp add: rx_tick_step_objs rx_fold_frame rx_refresh_idem)
qed

lemma tx_fold_objs:
  "m_tx_objs (foldl (tx_tick_step g mb r) s ks) a =
     (if \<exists>k\<in>set ks. g k = mb \<and> map_of (m_tx_streamers s) k = Some a
      then map_option (tx_apply r) (m_tx_objs s a) else m_tx_objs s a)"
proof (induction ks rule: rev_induct)
  case Nil
  show ?case by simp
next
  case (snoc k ks)
  show ?case
    using snoc.IH
    by (auto simp add: tx_tick_step_objs tx_fold_frame tx_apply_idem)
qed

lemma update_tick_rate_rx_objs:
  "m_rx_objs (update_tick_rate g mb r s) a =
     (if \<exists>k\<in>set (dict_keys (m_rx_streamers s)). g k = mb \<and> map_of (m_rx_streamers s) k = Some a
      then map_option rx_refresh (m_rx_objs s a) else m_rx_objs s a)"
  by (auto simp add: update_tick_rate_def Let_def tx_fold_frame rx_fold_objs)

lemma update_tick_rate_tx_objs:
  "m_tx_objs (update_tick_rate g mb r s) a =
     (if \<exists>k\<in>set (dict_keys (m_tx_streamers s)). g k = mb \<and> map_of (m_tx_streamers s) k = Some a
      then map_option (tx_apply r) (m_tx_objs s a) else m_tx_objs s a)"
  by (auto simp add: update_tick_rate_def Let_def tx_fold_objs rx_fold_frame)

lemma rx_tick_step_calls:
  "calls (rx_tick_step g mb s k) = calls s @ rx_tick_calls g mb s k"
  by (simp add: rx_tick_step_def rx_tick_calls_def rx_set_tick_rate_def rx_set_samp_rate_def Let_def
      split: option.splits)

lemma tx_tick_step_calls:
  "calls (tx_tick_step g mb r s k) = calls s @ tx_tick_calls g mb r s k"
  by (simp add: tx_tick_step_def tx_tick_calls_def tx_set_tick_rate_def tx_set_samp_rate_def
      split: option.splits)

lemma rx_tick_calls_cong:
  assumes "m_rx_streamers s' = m_rx_streamers s"
    and "\<And>a. m_rx_objs s' a = m_rx_objs s a \<or> m_rx_objs s' a = map_option rx_refresh (m_rx_objs s a)"
  shows "rx_tick_calls g mb s' k = rx_tick_calls g mb s k"
proof (cases "map_of (m_rx_streamers s) k")
  case None
  then show ?thesis using assms(1) by (simp add: rx_tick_calls_def lock_streamer_def)
next
  case (Some a)
  from assms(2) [of a] show ?thesis
    using Some assms(1)
    by (cases "m_rx_objs s a")
       (auto simp add: rx_tick_calls_def lock_streamer_def rx_refresh_def)
qed

lemma tx_tick_calls_cong:
  assumes "m_tx_streamers s' = m_tx_streamers s"
    and "\<And>a. m_tx_objs s' a = m_tx_objs s a \<or> m_tx_objs s' a = map_option (tx_apply r) (m_tx_objs s a)"
  shows "tx_tick_calls g mb r s' k = tx_tick_calls g mb r s k"
proof (cases "map_of (m_tx_streamers s) k")
  case None
  then show ?thesis using assms(1) by (simp add: tx_tick_calls_def lock_streamer_def)
next
  case (Some a)
  from assms(2) [of a] show ?thesis
    using Some assms(1)
    by (cases "m_tx_objs s a")
       (auto simp add: tx_tick_calls_def lock_streamer_def tx_apply_def)
qed

lemma rx_fold_calls:
  "calls (foldl (rx_tick_step g mb) s ks) = calls s @ concat (map (rx_tick_calls g mb s) ks)"
proof (induction ks rule: rev_induct)
  case Nil
  show ?case by simp
next
  case (snoc k ks)
  have "rx_tick_calls g mb (foldl (rx_tick_step g mb) s ks) k = rx_tick_calls g mb s k"
    by (rule rx_tick_calls_cong) (simp_all add: rx_fold_frame rx_fold_objs)
  then show ?case
    using snoc.IH by (simp add: rx_tick_step_calls)
qed

lemma tx_fold_calls:
  "calls (foldl (tx_tick_step g mb r) s ks) = calls s @ concat (map (tx_tick_calls g mb r s) ks)"
proof (induction ks rule: rev_induct)
  case Nil
  show ?case by simp
next
  case (snoc k ks)
  have "tx_tick_calls g mb r (foldl (tx_tick_step g mb r) s ks) k = tx_tick_calls g mb r s k"
    by (rule tx_tick_calls_cong) (simp_all add: tx_fold_frame tx_fold_objs)
  then show ?case
    using snoc.IH by (simp add: tx_tick_step_calls)
qed

lemma update_tick_rate_calls:
  "calls (update_tick_rate g mb r s) =
     calls s @ concat (map (rx_tick_calls g mb s) (dict_keys (m_rx_streamers s)))
             @ concat (map (tx_tick_calls g mb r s) (dict_keys (m_tx_streamers s)))"
proof -
  let ?s1 = "foldl (rx_tick_step g mb) s (dict_keys (m_rx_streamers s))"
  have "tx_tick_calls g mb r ?s1 = tx_tick_calls g mb r s"
    by (rule ext) (simp add: tx_tick_calls_def rx_fold_frame)
  then show ?thesis
    by (simp add: update_tick_rate_def Let_def tx_fold_calls rx_fold_calls rx_fold_frame)
qed

text \<open>
  Claim C2. For every call \<^verbatim>\<open>update_tick_rate(mb_index, rate)\<close> and every registered
  endpoint of motherboard \<open>mb_index\<close> that resolves: a receive endpoint has its tick
  rate and its sample rate set to the values the endpoint itself reported before the
  call (the tick rate and the output sample rate of its terminator), whatever \<open>rate\<close>
  is; a transmit endpoint has both set to \<open>rate\<close>.
\<close>

theorem update_tick_rate_refresh:
  "(block_id \<in> set (dict_keys (m_rx_streamers s)) \<and> g block_id = mb_index \<and>
      lock_streamer (m_rx_streamers s) (m_rx_objs s) block_id = Some (a, rx)
    \<longrightarrow> m_rx_objs (update_tick_rate g mb_index rate s) a =
          Some (rx\<lparr>rx_tick_rate := rx_term_tick_rate rx,
                    rx_samp_rate := rx_term_output_samp_rate rx\<rparr>)) \<and>
   (block_id' \<in> set (dict_keys (m_tx_streamers s)) \<and> g block_id' = mb_index \<and>
      lock_streamer (m_tx_streamers s) (m_tx_objs s) block_id' = Some (a', tx)
    \<longrightarrow> m_tx_objs (update_tick_rate g mb_index rate s) a' =
          Some (tx\<lparr>tx_tick_rate := rate, tx_samp_rate := rate\<rparr>))"
proof (intro conjI impI)
  assume h: "block_id \<in> set (dict_keys (m_rx_streamers s)) \<and> g block_id = mb_index \<and>
      lock_streamer (m_rx_streamers s) (m_rx_objs s) block_id = Some (a, rx)"
  then have m: "map_of (m_rx_streamers s) block_id = Some a" and o: "m_rx_objs s a = Some rx"
    by (auto simp add: lock_streamer_def split: option.splits)
  from h m have "\<exists>k\<in>set (dict_keys (m_rx_streamers s)). g k = mb_index \<and> map_of (m_rx_streamers s) k = Some a"
    by blast
  then show "m_rx_objs (update_tick_rate g mb_index rate s) a =
          Some (rx\<lparr>rx_tick_rate := rx_term_tick_rate rx,
                    rx_samp_rate := rx_term_output_samp_rate rx\<rparr>)"
    using o by (simp add: update_tick_rate_rx_objs rx_refresh_def)
next
  assume h: "block_id' \<in> set (dict_keys (m_tx_streamers s)) \<and> g block_id' = mb_index \<and>
      lock_streamer (m_tx_streamers s) (m_tx_objs s) block_id' = Some (a', tx)"
  then have m: "map_of (m_tx_streamers s) block_id' = Some a'" and o: "m_tx_objs s a' = Some tx"
    by (auto simp add: lock_streamer_def split: option.splits)
  from h m have "\<exists>k\<in>set (dict_keys (m_tx_streamers s)). g k = mb_index \<and> map_of (m_tx_streamers s) k = Some a'"
    by blast
  then show "m_tx_objs (update_tick_rate g mb_index rate s) a' =
          Some (tx\<lparr>tx_tick_rate := rate, tx_samp_rate := rate\<rparr>)"
    using o by (simp add: update_tick_rate_tx_objs tx_apply_def)
qed

theorem update_tick_rate_refresh_witness:
  "m_rx_objs (update_tick_rate ex_device_no 0 100 ex_state) 10 =
     Some (ex_rx\<lparr>rx_tick_rate := 200, rx_samp_rate := 10\<rparr>) \<and>
   m_tx_objs (update_tick_rate ex_device_no 0 100 ex_state) 20 =
     Some (ex_tx\<lparr>tx_tick_rate := 100, tx_samp_rate := 100\<rparr>)"
  using update_tick_rate_refresh [of "''Radio_0''" ex_state ex_device_no 0 10 ex_rx 100 "''Radio_0''" 20 ex_tx]
  by (simp add: ex_state_def ex_device_no_def dict_keys_def lock_streamer_def ex_rx_def)

text \<open>
  Claim C8. In \<^verbatim>\<open>update_tick_rate(mb_index, rate)\<close> an endpoint whose weak pointer does
  not resolve, or whose block id belongs to another motherboard, is skipped: the loop
  body leaves the state as it is for such a key (first two parts); an endpoint object
  that no key of motherboard \<open>mb_index\<close> points to is the same after the call (third
  and fourth part); and every setter call of the run is made on an endpoint that
  resolves under a key of motherboard \<open>mb_index\<close> (last part). The function has no
  exceptional outcome: its result is the state.
\<close>

theorem update_tick_rate_skips:
  "(g block_id \<noteq> mb_index \<or> lock_streamer (m_rx_streamers s) (m_rx_objs s) block_id = None
      \<longrightarrow> rx_tick_step g mb_index s block_id = s) \<and>
   (g block_id \<noteq> mb_index \<or> lock_streamer (m_tx_streamers s) (m_tx_objs s) block_id = None
      \<longrightarrow> tx_tick_step g mb_index rate s block_id = s) \<and>
   ((\<forall>k\<in>set (dict_keys (m_rx_streamers s)). g k = mb_index \<longrightarrow> map_of (m_rx_streamers s) k \<noteq> Some a)
      \<longrightarrow> m_rx_objs (update_tick_rate g mb_index rate s) a = m_rx_objs s a) \<and>
   ((\<forall>k\<in>set (dict_keys (m_tx_streamers s)). g k = mb_index \<longrightarrow> map_of (m_tx_streamers s) k \<noteq> Some a)
      \<longrightarrow> m_tx_objs (update_tick_rate g mb_index rate s) a = m_tx_objs s a) \<and>
   (\<exists>new. calls (update_tick_rate g mb_index rate s) = calls s @ new \<and>
      (\<forall>c\<in>set new. \<exists>k a r. g k = mb_index \<and>
         ((c = Rx_set_tick_rate a r \<or> c = Rx_set_samp_rate a r) \<and>
            k \<in> set (dict_keys (m_rx_streamers s)) \<and>
            map_of (m_rx_streamers s) k = Some a \<and> m_rx_objs s a \<noteq> None \<or>
          (c = Tx_set_tick_rate a r \<or> c = Tx_set_samp_rate a r) \<and>
            k \<in> set (dict_keys (m_tx_streamers s)) \<and>
            map_of (m_tx_streamers s) k = Some a \<and> m_tx_objs s a \<noteq> None)))"
proof (intro conjI)
  show "g block_id \<noteq> mb_index \<or> lock_streamer (m_rx_streamers s) (m_rx_objs s) block_id = None
      \<longrightarrow> rx_tick_step g mb_index s block_id = s"
    by (auto simp add: rx_tick_step_def)
  show "g block_id \<noteq> mb_index \<or> lock_streamer (m_tx_streamers s) (m_tx_objs s) block_id = None
      \<longrightarrow> tx_tick_step g mb_index rate s block_id = s"
    by (auto simp add: tx_tick_step_def)
  show "(\<forall>k\<in>set (dict_keys (m_rx_streamers s)). g k = mb_index \<longrightarrow> map_of (m_rx_streamers s) k \<noteq> Some a)
      \<longrightarrow> m_rx_objs (update_tick_rate g mb_index rate s) a = m_rx_objs s a"
    by (auto simp add: update_tick_rate_rx_objs)
  show "(\<forall>k\<in>set (dict_keys (m_tx_streamers s)). g k = mb_index \<longrightarrow> map_of (m_tx_streamers s) k \<noteq> Some a)
      \<longrightarrow> m_tx_objs (update_tick_rate g mb_index rate s) a = m_tx_objs s a"
    by (auto simp add: update_tick_rate_tx_objs)
  let ?rx = "concat (map (rx_tick_calls g mb_index s) (dict_keys (m_rx_streamers s)))"
  let ?tx = "concat (map (tx_tick_calls g mb_index rate s) (dict_keys (m_tx_streamers s)))"
  have rx: "\<exists>k a r. g k = mb_index \<and> (c = Rx_set_tick_rate a r \<or> c = Rx_set_samp_rate a r) \<and>
            k \<in> set (dict_keys (m_rx_streamers s)) \<and>
            map_of (m_rx_streamers s) k = Some a \<and> m_rx_objs s a \<noteq> None" if "c \<in> set ?rx" for c
  proof -
    from that obtain k where k: "k \<in> set (dict_keys (m_rx_streamers s))"
      and c: "c \<in> set (rx_tick_calls g mb_index s k)" by auto
    from c show ?thesis using k
      by (auto simp add: rx_tick_calls_def lock_streamer_def split: if_splits option.splits)
  qed
  have tx: "\<exists>k a r. g k = mb_index \<and> (c = Tx_set_tick_rate a r \<or> c = Tx_set_samp_rate a r) \<and>
            k \<in> set (dict_keys (m_tx_streamers s)) \<and>
            map_of (m_tx_streamers s) k = Some a \<and> m_tx_objs s a \<noteq> None" if "c \<in> set ?tx" for c
  proof -
    from that obtain k where k: "k \<in> set (dict_keys (m_tx_streamers s))"
      and c: "c \<in> set (tx_tick_calls g mb_index rate s k)" by auto
    from c show ?thesis using k
      by (auto simp add: tx_tick_calls_def lock_streamer_def split: if_splits option.splits)
  qed
  have "calls (update_tick_rate g mb_index rate s) = calls s @ (?rx @ ?tx)"
    by (simp add: update_tick_rate_calls)
  moreover have "\<forall>c\<in>set (?rx @ ?tx). \<exists>k a r. g k = mb_index \<and>
         ((c = Rx_set_tick_rate a r \<or> c = Rx_set_samp_rate a r) \<and>
            k \<in> set (dict_keys (m_rx_streamers s)) \<and>
            map_of (m_rx_streamers s) k = Some a \<and> m_rx_objs s a \<noteq> None \<or>
          (c = Tx_set_tick_rate a r \<or> c = Tx_set_samp_rate a r) \<and>
            k \<in> set (dict_keys (m_tx_streamers s)) \<and>
            map_of (m_tx_streamers s) k = Some a \<and> m_tx_objs s a \<noteq> None)"
  proof
    fix c assume "c \<in> set (?rx @ ?tx)"
    then consider "c \<in> set ?rx" | "c \<in> set ?tx" by auto
    then show "\<exists>k a r. g k = mb_index \<and>
         ((c = Rx_set_tick_rate a r \<or> c = Rx_set_samp_rate a r) \<and>
            k \<in> set (dict_keys (m_rx_streamers s)) \<and>
            map_of (m_rx_streamers s) k = Some a \<and> m_rx_objs s a \<noteq> None \<or>
          (c = Tx_set_tick_rate a r \<or> c = Tx_set_samp_rate a r) \<and>
            k \<in> set (dict_keys (m_tx_streamers s)) \<and>
            map_of (m_tx_streamers s) k = Some a \<and> m_tx_objs s a \<noteq> None)"
    proof cases
      case 1
      from rx [OF 1] show ?thesis by blast
    next
      case 2
      from tx [OF 2] show ?thesis by blast
    qed
  qed
  ultimately show "\<exists>new. calls (update_tick_rate g mb_index rate s) = calls s @ new \<and>
      (\<forall>c\<in>set new. \<exists>k a r. g k = mb_index \<and>
         ((c = Rx_set_tick_rate a r \<or> c = Rx_set_samp_rate a r) \<and>
            k \<in> set (dict_keys (m_rx_streamers s)) \<and>
            map_of (m_rx_streamers s) k = Some a \<and> m_rx_objs s a \<noteq> None \<or>
          (c = Tx_set_tick_rate a r \<or> c = Tx_set_samp_rate a r) \<and>
            k \<in> set (dict_keys (m_tx_streamers s)) \<and>
            map_of (m_tx_streamers s) k = Some a \<and> m_tx_objs s a \<noteq> None))"
    by blast
qed

theorem update_tick_rate_skips_witness:
  "rx_tick_step ex_device_no 0 ex_state ''1/Radio_0'' = ex_state \<and>
   rx_tick_step ex_device_no 0 ex_state ''0/Radio_1'' = ex_state \<and>
   tx_tick_step ex_device_no 0 100 ex_state ''1/Radio_0'' = ex_state \<and>
   tx_tick_step ex_device_no 0 100 ex_state ''0/Radio_1'' = ex_state \<and>
   m_rx_objs (update_tick_rate ex_device_no 0 100 ex_state) 11 = Some ex_rx \<and>
   m_tx_objs (update_tick_rate ex_device_no 0 100 ex_state) 21 = Some ex_tx1"
  using update_tick_rate_skips [of ex_device_no "''1/Radio_0''" 0 ex_state 100 11]
    update_tick_rate_skips [of ex_device_no "''0/Radio_1''" 0 ex_state 100 21]
  by (simp add: ex_device_no_def ex_state_lock_rx ex_state_lock_tx)
     (simp add: ex_state_def dict_keys_def)

section \<open>Properties of update_rx_samp_rate and update_tx_samp_rate\<close>

lemma update_rx_samp_rate_absent:
  "lock_streamer (m_rx_streamers s) (m_rx_objs s) (''Radio_'' @ string_of_nat dspno) = None
   \<Longrightarrow> update_rx_samp_rate s mb dspno rate = (None, s)"
  by (simp add: update_rx_samp_rate_def Let_def)

lemma update_tx_samp_rate_absent:
  "lock_streamer (m_tx_streamers s) (m_tx_objs s) (''Radio_'' @ string_of_nat dspno) = None
   \<Longrightarrow> update_tx_samp_rate s mb dspno rate = (None, s)"
  by (simp add: update_tx_samp_rate_def Let_def)

lemma update_rx_samp_rate_resolved:
  "lock_streamer (m_rx_streamers s) (m_rx_objs s) (''Radio_'' @ string_of_nat dspno) = Some (a, rx)
   \<Longrightarrow> dspno < length (radio_perifs mb)
   \<Longrightarrow> update_rx_samp_rate s mb dspno rate =
        (None, s\<lparr>m_rx_objs := (m_rx_objs s)(a \<mapsto>
                        rx\<lparr>rx_samp_rate := rate,
                           rx_scale_factor := ddc_scaling_adjustment (radio_perifs mb ! dspno)\<rparr>),
                    calls := calls s @
                      [Rx_set_samp_rate a rate,
                       Rx_set_scale_factor a (ddc_scaling_adjustment (radio_perifs mb ! dspno))]\<rparr>)"
  by (frule lock_streamer_obj)
     (simp add: update_rx_samp_rate_def Let_def lock_streamer_has_key
        rx_set_scale_factor_def rx_set_samp_rate_def)

lemma update_tx_samp_rate_resolved:
  "lock_streamer (m_tx_streamers s) (m_tx_objs s) (''Radio_'' @ string_of_nat dspno) = Some (a, tx)
   \<Longrightarrow> dspno < length (radio_perifs mb)
   \<Longrightarrow> update_tx_samp_rate s mb dspno rate =
        (None, s\<lparr>m_tx_objs := (m_tx_objs s)(a \<mapsto>
                        tx\<lparr>tx_samp_rate := rate,
                           tx_scale_factor := duc_scaling_adjustment (radio_perifs mb ! dspno)\<rparr>),
                    calls := calls s @
                      [Tx_set_samp_rate a rate,
                       Tx_set_scale_factor a (duc_scaling_adjustment (radio_perifs mb ! dspno))]\<rparr>)"
  by (frule lock_streamer_obj)
     (simp add: update_tx_samp_rate_def Let_def lock_streamer_has_key
        tx_set_scale_factor_def tx_set_samp_rate_def)

text \<open>
  Claim C7. \<^verbatim>\<open>update_rx_samp_rate(mb, dspno, rate)\<close>: when no receive endpoint is
  registered under the name \<^verbatim>\<open>Radio_<dspno>\<close>, or its weak pointer does not resolve,
  the call returns normally and changes nothing. Otherwise the endpoint's sample rate
  is set to \<open>rate\<close> and then its scale factor to the scaling adjustment the DDC of
  \<^verbatim>\<open>mb.radio_perifs[dspno]\<close> reports in the motherboard state passed to this call.
  \<^verbatim>\<open>update_tx_samp_rate\<close> does the same with the transmit endpoint and the DUC.
\<close>

theorem update_samp_rate_spec:
  "(lock_streamer (m_rx_streamers s) (m_rx_objs s) (''Radio_'' @ string_of_nat dspno) = None
      \<longrightarrow> update_rx_samp_rate s mb dspno rate = (None, s)) \<and>
   (lock_streamer (m_rx_streamers s) (m_rx_objs s) (''Radio_'' @ string_of_nat dspno) = Some (a, rx)
      \<and> dspno < length (radio_perifs mb)
      \<longrightarrow> update_rx_samp_rate s mb dspno rate =
           (None, s\<lparr>m_rx_objs := (m_rx_objs s)(a \<mapsto>
                        rx\<lparr>rx_samp_rate := rate,
                           rx_scale_factor := ddc_scaling_adjustment (radio_perifs mb ! dspno)\<rparr>),
                    calls := calls s @
                      [Rx_set_samp_rate a rate,
                       Rx_set_scale_factor a (ddc_scaling_adjustment (radio_perifs mb ! dspno))]\<rparr>)) \<and>
   (lock_streamer (m_tx_streamers s) (m_tx_objs s) (''Radio_'' @ string_of_nat dspno) = None
      \<longrightarrow> update_tx_samp_rate s mb dspno rate = (None, s)) \<and>
   (lock_streamer (m_tx_streamers s) (m_tx_objs s) (''Radio_'' @ string_of_nat dspno) = Some (a', tx)
      \<and> dspno < length (radio_perifs mb)
      \<longrightarrow> update_tx_samp_rate s mb dspno rate =
           (None, s\<lparr>m_tx_objs := (m_tx_objs s)(a' \<mapsto>
                        tx\<lparr>tx_samp_rate := rate,
                           tx_scale_factor := duc_scaling_adjustment (radio_perifs mb ! dspno)\<rparr>),
                    calls := calls s @
                      [Tx_set_samp_rate a' rate,
                       Tx_set_scale_factor a' (duc_scaling_adjustment (radio_perifs mb ! dspno))]\<rparr>))"
  by (simp add: update_rx_samp_rate_absent update_tx_samp_rate_absent
      update_rx_samp_rate_resolved update_tx_samp_rate_resolved)

theorem update_samp_rate_spec_witness:
  "update_rx_samp_rate ex_state ex_mboard 1 5 = (None, ex_state) \<and>
   update_rx_samp_rate ex_state ex_mboard 0 5 =
     (None, ex_state\<lparr>m_rx_objs := (m_rx_objs ex_state)(10 \<mapsto> ex_rx\<lparr>rx_samp_rate := 5, rx_scale_factor := 2\<rparr>),
                     calls := [Rx_set_samp_rate 10 5, Rx_set_scale_factor 10 2]\<rparr>) \<and>
   update_tx_samp_rate ex_state ex_mboard 1 5 = (None, ex_state) \<and>
   update_tx_samp_rate ex_state ex_mboard 0 5 =
     (None, ex_state\<lparr>m_tx_objs := (m_tx_objs ex_state)(20 \<mapsto> ex_tx\<lparr>tx_samp_rate := 5, tx_scale_factor := 3\<rparr>),
                     calls := [Tx_set_samp_rate 20 5, Tx_set_scale_factor 20 3]\<rparr>)"
  using update_samp_rate_spec [where s = ex_state and dspno = 1 and mb = ex_mboard and rate = 5]
    update_samp_rate_spec [where s = ex_state and dspno = 0 and mb = ex_mboard and rate = 5
      and a = 10 and rx = ex_rx and a' = 20 and tx = ex_tx]
  by (simp add: string_of_nat_0 string_of_nat_1 ex_state_lock_rx ex_state_lock_tx
      ex_mboard_perifs ex_state_calls)

text \<open>
  Claim C10. The endpoint that \<^verbatim>\<open>update_rx_samp_rate\<close> and
  \<^verbatim>\<open>update_tx_samp_rate\<close> address is found from the DSP index alone, under the name
  \<^verbatim>\<open>Radio_<dspno>\<close>: called with two different motherboards and the same index, both
  calls are no-ops together or both act on the same endpoint \<open>a\<close>, and each takes
  the scaling adjustment from the motherboard it was given.
\<close>

theorem samp_rate_entry_independent_of_mboard:
  "dspno < length (radio_perifs mb1) \<and> dspno < length (radio_perifs mb2) \<longrightarrow>
     (case lock_streamer (m_rx_streamers s) (m_rx_objs s) (''Radio_'' @ string_of_nat dspno) of
        None \<Rightarrow>
          update_rx_samp_rate s mb1 dspno rate = (None, s) \<and>
          update_rx_samp_rate s mb2 dspno rate = (None, s)
      | Some (a, rx) \<Rightarrow>
          update_rx_samp_rate s mb1 dspno rate =
            (None, rx_set_scale_factor a (ddc_scaling_adjustment (radio_perifs mb1 ! dspno))
                     (rx_set_samp_rate a rate s)) \<and>
          update_rx_samp_rate s mb2 dspno rate =
            (None, rx_set_scale_factor a (ddc_scaling_adjustment (radio_perifs mb2 ! dspno))
                     (rx_set_samp_rate a rate s))) \<and>
     (case lock_streamer (m_tx_streamers s) (m_tx_objs s) (''Radio_'' @ string_of_nat dspno) of
        None \<Rightarrow>
          update_tx_samp_rate s mb1 dspno rate = (None, s) \<and>
          update_tx_samp_rate s mb2 dspno rate = (None, s)
      | Some (a, tx) \<Rightarrow>
          update_tx_samp_rate s mb1 dspno rate =
            (None, tx_set_scale_factor a (duc_scaling_adjustment (radio_perifs mb1 ! dspno))
                     (tx_set_samp_rate a rate s)) \<and>
          update_tx_samp_rate s mb2 dspno rate =
            (None, tx_set_scale_factor a (duc_scaling_adjustment (radio_perifs mb2 ! dspno))
                     (tx_set_samp_rate a rate s)))"
  by (auto simp add: update_rx_samp_rate_def update_tx_samp_rate_def Let_def
      lock_streamer_has_key split: option.splits)

theorem samp_rate_entry_independent_of_mboard_witness:
  "update_rx_samp_rate ex_state ex_mboard 0 5 =
     (None, rx_set_scale_factor 10 2 (rx_set_samp_rate 10 5 ex_state)) \<and>
   update_rx_samp_rate ex_state ex_mboard2 0 5 =
     (None, rx_set_scale_factor 10 7 (rx_set_samp_rate 10 5 ex_state)) \<and>
   update_tx_samp_rate ex_state ex_mboard 0 5 =
     (None, tx_set_scale_factor 20 3 (tx_set_samp_rate 20 5 ex_state)) \<and>
   update_tx_samp_rate ex_state ex_mboard2 0 5 =
     (None, tx_set_scale_factor 20 9 (tx_set_samp_rate 20 5 ex_state))"
proof -
  have m2: "length (radio_perifs ex_mboard2) = 1"
    "ddc_scaling_adjustment (radio_perifs ex_mboard2 ! 0) = 7"
    "duc_scaling_adjustment (radio_perifs ex_mboard2 ! 0) = 9"
    by (simp_all add: ex_mboard2_def ex_perif_def)
  from samp_rate_entry_independent_of_mboard [of 0 ex_mboard ex_mboard2 ex_state 5]
  show ?thesis
    by (simp add: string_of_nat_0 ex_state_lock_rx ex_state_lock_tx ex_mboard_perifs m2)
qed

section \<open>Properties of update_subdev_spec\<close>

lemma update_perif_frame:
  "m_tree_str (update_perif mb_i r f s) = m_tree_str s"
  "m_tree_vec (update_perif mb_i r f s) = m_tree_vec s"
  "m_rx_streamers (update_perif mb_i r f s) = m_rx_streamers s"
  "m_tx_streamers (update_perif mb_i r f s) = m_tx_streamers s"
  "m_rx_objs (update_perif mb_i r f s) = m_rx_objs s"
  "m_tx_objs (update_perif mb_i r f s) = m_tx_objs s"
  "calls (update_perif mb_i r f s) = calls s"
  "length (m_mb (update_perif mb_i r f s)) = length (m_mb s)"
  by (simp_all add: update_perif_def)

lemma update_perif_nth:
  "m_mb (update_perif mb_i r f s) ! j =
     (if j = mb_i \<and> mb_i < length (m_mb s)
      then (m_mb s ! mb_i)\<lparr>radio_perifs :=
             (radio_perifs (m_mb s ! mb_i))[r := f (radio_perifs (m_mb s ! mb_i) ! r)]\<rparr>
      else m_mb s ! j)"
proof (cases "mb_i < length (m_mb s)")
  case True
  then show ?thesis by (simp add: update_perif_def nth_list_update)
next
  case False
  then have "length (m_mb s) \<le> mb_i" by simp
  then show ?thesis by (simp add: update_perif_def list_update_beyond)
qed

lemma update_perif_mb:
  "get_radio_index (m_mb (update_perif mb_i r f s) ! j) = get_radio_index (m_mb s ! j)"
  "length (radio_perifs (m_mb (update_perif mb_i r f s) ! j)) = length (radio_perifs (m_mb s ! j))"
  "recv_args (m_mb (update_perif mb_i r f s) ! j) = recv_args (m_mb s ! j)"
  "send_args (m_mb (update_perif mb_i r f s) ! j) = send_args (m_mb s ! j)"
  "xport_path (m_mb (update_perif mb_i r f s) ! j) = xport_path (m_mb s ! j)"
  by (simp_all add: update_perif_nth)

lemma mux_program_frame:
  "m_tree_str (mux_program tx_rx mb_i r conn s) = m_tree_str s"
  "m_tree_vec (mux_program tx_rx mb_i r conn s) = m_tree_vec s"
  "m_rx_streamers (mux_program tx_rx mb_i r conn s) = m_rx_streamers s"
  "m_tx_streamers (mux_program tx_rx mb_i r conn s) = m_tx_streamers s"
  "m_rx_objs (mux_program tx_rx mb_i r conn s) = m_rx_objs s"
  "m_tx_objs (mux_program tx_rx mb_i r conn s) = m_tx_objs s"
  "length (m_mb (mux_program tx_rx mb_i r conn s)) = length (m_mb s)"
  "get_radio_index (m_mb (mux_program tx_rx mb_i r conn s) ! j) = get_radio_index (m_mb s ! j)"
  "length (radio_perifs (m_mb (mux_program tx_rx mb_i r conn s) ! j)) = length (radio_perifs (m_mb s ! j))"
  by (simp_all add: mux_program_def tx_fe_set_mux_def rx_fe_set_mux_def ddc_set_mux_def
      update_perif_frame update_perif_mb)

lemma mux_program_calls:
  "calls (mux_program tx_rx mb_i r conn s) =
     calls s @ (if tx_rx = ''tx'' then [Tx_fe_set_mux mb_i r conn]
                else [Ddc_set_mux mb_i r conn (conn = ''QI'' \<or> conn = ''Q''),
                      Rx_fe_set_mux mb_i r (conn = ''QI'' \<or> conn = ''Q'')])"
  by (simp add: mux_program_def tx_fe_set_mux_def rx_fe_set_mux_def ddc_set_mux_def
      update_perif_frame)

lemma mux_program_notions:
  "radio_idx_of (mux_program tx_rx mb_i r conn s) mb_i = radio_idx_of s mb_i"
  "conn_of (mux_program tx_rx mb_i r conn s) tx_rx' mb_i' = conn_of s tx_rx' mb_i'"
  "entry_ok (mux_program tx_rx mb_i r conn s) tx_rx' mb_i = entry_ok s tx_rx' mb_i"
  "entry_calls tx_rx' mb_i (mux_program tx_rx mb_i r conn s) = entry_calls tx_rx' mb_i s"
  by (rule ext; simp add: radio_idx_of_def conn_of_def entry_ok_def entry_calls_def mux_program_frame)+

lemma mux_all_frame:
  "m_tree_str (mux_all tx_rx mb_i ps s) = m_tree_str s"
  "m_tree_vec (mux_all tx_rx mb_i ps s) = m_tree_vec s"
  "m_rx_streamers (mux_all tx_rx mb_i ps s) = m_rx_streamers s"
  "m_tx_streamers (mux_all tx_rx mb_i ps s) = m_tx_streamers s"
  "m_rx_objs (mux_all tx_rx mb_i ps s) = m_rx_objs s"
  "m_tx_objs (mux_all tx_rx mb_i ps s) = m_tx_objs s"
  by (induction ps arbitrary: s, simp_all add: mux_program_frame)+

lemma mux_all_calls:
  "calls (mux_all tx_rx mb_i ps s) = calls s @ concat (map (entry_calls tx_rx mb_i s) ps)"
proof (induction ps arbitrary: s)
  case Nil
  show ?case by simp
next
  case (Cons p ps)
  show ?case
    by (simp add: Cons.IH mux_program_notions mux_program_calls entry_calls_def)
qed

lemma mux_loop_done:
  "\<not> i < length spec \<Longrightarrow> mux_loop tx_rx mb_i spec i chan s = (None, s, chan)"
  by (subst mux_loop.simps) simp

lemma mux_loop_step:
  "i < length spec \<Longrightarrow> entry_ok s tx_rx mb_i (spec ! i) \<Longrightarrow>
   mux_loop tx_rx mb_i spec i chan s =
     mux_loop tx_rx mb_i spec (Suc i) (chan[i := radio_idx_of s mb_i (spec ! i)])
       (mux_program tx_rx mb_i (radio_idx_of s mb_i (spec ! i)) (conn_of s tx_rx mb_i (spec ! i)) s)"
  by (subst mux_loop.simps)
     (auto simp add: entry_ok_def radio_idx_of_def conn_of_def mux_program_def Let_def)

lemma mux_loop_fail:
  "i < length spec \<Longrightarrow> \<not> entry_ok s tx_rx mb_i (spec ! i) \<Longrightarrow>
   fst (mux_loop tx_rx mb_i spec i chan s) \<noteq> None"
  by (subst mux_loop.simps)
     (auto simp add: entry_ok_def radio_idx_of_def Let_def split: option.splits)

lemma mux_loop_fail_state:
  "i < length spec \<Longrightarrow> \<not> entry_ok s tx_rx mb_i (spec ! i) \<Longrightarrow>
   fst (snd (mux_loop tx_rx mb_i spec i chan s)) = s"
  by (subst mux_loop.simps)
     (auto simp add: entry_ok_def radio_idx_of_def Let_def split: option.splits)

lemma mux_loop_success:
  "\<forall>p\<in>set (drop i spec). entry_ok s tx_rx mb_i p \<Longrightarrow> length chan = length spec \<Longrightarrow>
   mux_loop tx_rx mb_i spec i chan s =
     (None, mux_all tx_rx mb_i (drop i spec) s,
      take i chan @ map (radio_idx_of s mb_i) (drop i spec))"
proof (induction "length spec - i" arbitrary: i chan s)
  case 0
  then show ?case by (simp add: mux_loop_done)
next
  case (Suc n)
  then have i: "i < length spec" by simp
  then have d: "drop i spec = spec ! i # drop (Suc i) spec"
    by (simp add: Cons_nth_drop_Suc)
  let ?r = "radio_idx_of s mb_i (spec ! i)"
  let ?s1 = "mux_program tx_rx mb_i ?r (conn_of s tx_rx mb_i (spec ! i)) s"
  from Suc.prems d have ok: "entry_ok s tx_rx mb_i (spec ! i)"
    and rest: "\<forall>p\<in>set (drop (Suc i) spec). entry_ok ?s1 tx_rx mb_i p"
    by (simp_all add: mux_program_notions)
  from Suc.hyps(2) have n: "n = length spec - Suc i" by simp
  have len: "length (chan[i := ?r]) = length spec" using Suc.prems by simp
  have tk: "take (Suc i) (chan[i := ?r]) = take i chan @ [?r]"
    using i Suc.prems(2) by (simp add: take_Suc_conv_app_nth)
  show ?case
    using Suc.hyps(1) [OF n rest len] ok i
    by (simp add: mux_loop_step d tk mux_program_notions)
qed

lemma mux_loop_None_ok:
  "fst (mux_loop tx_rx mb_i spec i chan s) = None \<Longrightarrow> \<forall>p\<in>set (drop i spec). entry_ok s tx_rx mb_i p"
proof (induction "length spec - i" arbitrary: i chan s)
  case 0
  then show ?case by simp
next
  case (Suc n)
  then have i: "i < length spec" by simp
  then have d: "drop i spec = spec ! i # drop (Suc i) spec"
    by (simp add: Cons_nth_drop_Suc)
  let ?r = "radio_idx_of s mb_i (spec ! i)"
  let ?s1 = "mux_program tx_rx mb_i ?r (conn_of s tx_rx mb_i (spec ! i)) s"
  from Suc.prems i have ok: "entry_ok s tx_rx mb_i (spec ! i)"
    using mux_loop_fail by blast
  from Suc.hyps(2) have n: "n = length spec - Suc i" by simp
  from Suc.prems ok i
  have "fst (mux_loop tx_rx mb_i spec (Suc i) (chan[i := ?r]) ?s1) = None"
    by (simp add: mux_loop_step)
  from Suc.hyps(1) [OF n this] ok show ?case
    by (simp add: d mux_program_notions)
qed

lemma mux_loop_tree_vec:
  "m_tree_vec (fst (snd (mux_loop tx_rx mb_i spec i chan s))) = m_tree_vec s"
proof (induction "length spec - i" arbitrary: i chan s)
  case 0
  then show ?case by (simp add: mux_loop_done)
next
  case (Suc n)
  then have i: "i < length spec" by simp
  from Suc.hyps(2) have n: "n = length spec - Suc i" by simp
  show ?case
  proof (cases "entry_ok s tx_rx mb_i (spec ! i)")
    case True
    show ?thesis
      by (simp add: mux_loop_step [OF i True] Suc.hyps(1) [OF n] mux_program_frame)
  next
    case False
    show ?thesis
      by (simp add: mux_loop_fail_state [OF i False])
  qed
qed

lemma update_subdev_spec_rejected:
  "\<not> checks_pass tx_rx mb_i spec s \<Longrightarrow>
   update_subdev_spec tx_rx mb_i spec s =
     (Some (if (tx_rx = ''tx'' \<or> tx_rx = ''rx'') \<and> mb_i < length (m_mb s) \<and>
               \<not> validate_subdev_spec (m_tree_str s) spec tx_rx (string_of_nat mb_i)
            then Value_error else Assertion_error), s)"
  by (auto simp add: checks_pass_def update_subdev_spec_def Let_def)

lemma update_subdev_spec_checked:
  "checks_pass tx_rx mb_i spec s \<Longrightarrow>
   mux_loop tx_rx mb_i spec 0 (replicate (length spec) 0) s = (None, s', chan_to_dsp_map) \<Longrightarrow>
   update_subdev_spec tx_rx mb_i spec s =
     (None, tree_set_vec (fs_path_div (''/mboards/'' @ string_of_nat mb_i) (tx_rx @ ''_chan_dsp_mapping''))
              chan_to_dsp_map s')"
  "checks_pass tx_rx mb_i spec s \<Longrightarrow>
   mux_loop tx_rx mb_i spec 0 (replicate (length spec) 0) s = (Some e, s', chan_to_dsp_map) \<Longrightarrow>
   update_subdev_spec tx_rx mb_i spec s = (Some e, s')"
  by (auto simp add: checks_pass_def update_subdev_spec_def Let_def)

lemma update_subdev_spec_ok:
  assumes "checks_pass tx_rx mb_i spec s" and "\<forall>p\<in>set spec. entry_ok s tx_rx mb_i p"
  shows "update_subdev_spec tx_rx mb_i spec s =
     (None, tree_set_vec (fs_path_div (''/mboards/'' @ string_of_nat mb_i) (tx_rx @ ''_chan_dsp_mapping''))
              (map (radio_idx_of s mb_i) spec) (mux_all tx_rx mb_i spec s))"
proof -
  have "mux_loop tx_rx mb_i spec 0 (replicate (length spec) 0) s =
      (None, mux_all tx_rx mb_i spec s, map (radio_idx_of s mb_i) spec)"
    using mux_loop_success [of 0 spec s tx_rx mb_i "replicate (length spec) 0"] assms(2)
    by simp
  from update_subdev_spec_checked(1) [OF assms(1) this] show ?thesis .
qed

lemma update_subdev_spec_None:
  assumes "fst (update_subdev_spec tx_rx mb_i spec s) = None"
  shows "checks_pass tx_rx mb_i spec s \<and> (\<forall>p\<in>set spec. entry_ok s tx_rx mb_i p)"
proof -
  have c: "checks_pass tx_rx mb_i spec s"
    using assms update_subdev_spec_rejected [of tx_rx mb_i spec s] by (cases "checks_pass tx_rx mb_i spec s") auto
  obtain e s' chan where m: "mux_loop tx_rx mb_i spec 0 (replicate (length spec) 0) s = (e, s', chan)"
    by (cases "mux_loop tx_rx mb_i spec 0 (replicate (length spec) 0) s") auto
  have "e = None"
  proof (cases e)
    case None
    then show ?thesis .
  next
    case (Some err)
    with update_subdev_spec_checked(2) [OF c] m assms show ?thesis by simp
  qed
  with m have "fst (mux_loop tx_rx mb_i spec 0 (replicate (length spec) 0) s) = None" by simp
  from mux_loop_None_ok [OF this] c show ?thesis by simp
qed

lemma update_subdev_spec_result:
  assumes "fst (update_subdev_spec tx_rx mb_i spec s) = None"
  shows "update_subdev_spec tx_rx mb_i spec s =
     (None, tree_set_vec (fs_path_div (''/mboards/'' @ string_of_nat mb_i) (tx_rx @ ''_chan_dsp_mapping''))
              (map (radio_idx_of s mb_i) spec) (mux_all tx_rx mb_i spec s))"
  using update_subdev_spec_None [OF assms] by (simp add: update_subdev_spec_ok)

lemma update_subdev_spec_failed_tree_vec:
  assumes "fst (update_subdev_spec tx_rx mb_i spec s) \<noteq> None"
  shows "m_tree_vec (snd (update_subdev_spec tx_rx mb_i spec s)) = m_tree_vec s"
proof (cases "checks_pass tx_rx mb_i spec s")
  case False
  then show ?thesis by (simp add: update_subdev_spec_rejected)
next
  case True
  obtain e s' chan where m: "mux_loop tx_rx mb_i spec 0 (replicate (length spec) 0) s = (e, s', chan)"
    by (cases "mux_loop tx_rx mb_i spec 0 (replicate (length spec) 0) s") auto
  have s': "m_tree_vec s' = m_tree_vec s"
    using mux_loop_tree_vec [of tx_rx mb_i spec 0 "replicate (length spec) 0" s] m by simp
  show ?thesis
  proof (cases e)
    case None
    with update_subdev_spec_checked(1) [OF True] m assms show ?thesis by simp
  next
    case (Some err)
    with update_subdev_spec_checked(2) [OF True] m s' show ?thesis by simp
  qed
qed

lemma tree_set_vec_after_mux_all:
  "calls (tree_set_vec path v (mux_all tx_rx mb_i spec s)) =
     calls s @ concat (map (entry_calls tx_rx mb_i s) spec) @ [Tree_set_chan_dsp_mapping path v]"
  "m_tree_vec (tree_set_vec path v s') path = Some v"
  by (simp_all add: tree_set_vec_def mux_all_calls)

lemma validate_entry_tree:
  "validate_subdev_spec (m_tree_str s) spec tx_rx (string_of_nat mb_i) \<Longrightarrow> p \<in> set spec \<Longrightarrow>
   m_tree_str s (connection_path (''/mboards/'' @ string_of_nat mb_i) tx_rx p) \<noteq> None"
  by (simp add: validate_subdev_spec_def list_all_iff)

lemma pair_names:
  "length spec = 2 \<Longrightarrow> p \<in> set spec \<Longrightarrow> p = spec ! 0 \<or> p = spec ! 1"
  by (cases spec; cases "tl spec"; auto)

lemma ex_spec_ok:
  "fst (update_subdev_spec ''rx'' 0 ex_spec ex_state) = None"
  "fst (update_subdev_spec ''tx'' 0 ex_spec ex_state) = None"
proof -
  have "checks_pass ''rx'' 0 ex_spec ex_state" "\<forall>p\<in>set ex_spec. entry_ok ex_state ''rx'' 0 p"
    by (simp_all add: checks_pass_def entry_ok_def radio_idx_of_def ex_spec_def validate_subdev_spec_def
        path_eval ex_tree_vals ex_state_fields ex_mboard_index ex_mboard_perifs)
  from update_subdev_spec_ok [OF this] show "fst (update_subdev_spec ''rx'' 0 ex_spec ex_state) = None"
    by simp
  have "checks_pass ''tx'' 0 ex_spec ex_state" "\<forall>p\<in>set ex_spec. entry_ok ex_state ''tx'' 0 p"
    by (simp_all add: checks_pass_def entry_ok_def radio_idx_of_def ex_spec_def validate_subdev_spec_def
        path_eval ex_tree_vals ex_state_fields ex_mboard_index ex_mboard_perifs)
  from update_subdev_spec_ok [OF this] show "fst (update_subdev_spec ''tx'' 0 ex_spec ex_state) = None"
    by simp
qed

text \<open>
  Claim C1, as amended. For a subdevice spec of length 2: the call succeeds only if the
  two daughterboard names are \<open>A\<close> and \<open>B\<close> in some order; with any other pairing
  it fails before any mux is programmed and leaves the whole state as it was, with an
  assertion error, or with the error of the compatibility check when that check, which
  runs first, rejects the spec; and with the names \<open>A\<close> and \<open>B\<close> it succeeds
  provided the direction is \<open>tx\<close> or \<open>rx\<close>, the motherboard index is in range, the
  compatibility check passes and the radio indices of \<open>A\<close> and \<open>B\<close> address
  radio peripherals of the motherboard.
\<close>

theorem update_subdev_spec_pairing:
  "length spec = 2 \<longrightarrow>
     (fst (update_subdev_spec tx_rx mb_i spec s) = None \<longrightarrow>
        (db_name (spec ! 0) = ''A'' \<and> db_name (spec ! 1) = ''B'') \<or>
        (db_name (spec ! 0) = ''B'' \<and> db_name (spec ! 1) = ''A'')) \<and>
     (\<not> ((db_name (spec ! 0) = ''A'' \<and> db_name (spec ! 1) = ''B'') \<or>
          (db_name (spec ! 0) = ''B'' \<and> db_name (spec ! 1) = ''A'')) \<longrightarrow>
        update_subdev_spec tx_rx mb_i spec s =
          (Some (if (tx_rx = ''tx'' \<or> tx_rx = ''rx'') \<and> mb_i < length (m_mb s) \<and>
                    \<not> validate_subdev_spec (m_tree_str s) spec tx_rx (string_of_nat mb_i)
                 then Value_error else Assertion_error), s)) \<and>
     (((db_name (spec ! 0) = ''A'' \<and> db_name (spec ! 1) = ''B'') \<or>
       (db_name (spec ! 0) = ''B'' \<and> db_name (spec ! 1) = ''A'')) \<and>
      (tx_rx = ''tx'' \<or> tx_rx = ''rx'') \<and> mb_i < length (m_mb s) \<and>
      validate_subdev_spec (m_tree_str s) spec tx_rx (string_of_nat mb_i) \<and>
      get_radio_index (m_mb s ! mb_i) ''A'' < length (radio_perifs (m_mb s ! mb_i)) \<and>
      get_radio_index (m_mb s ! mb_i) ''B'' < length (radio_perifs (m_mb s ! mb_i))
      \<longrightarrow> fst (update_subdev_spec tx_rx mb_i spec s) = None)"
proof (intro impI conjI)
  assume len: "length spec = 2"
  let ?pairing = "(db_name (spec ! 0) = ''A'' \<and> db_name (spec ! 1) = ''B'') \<or>
        (db_name (spec ! 0) = ''B'' \<and> db_name (spec ! 1) = ''A'')"
  {
    assume "fst (update_subdev_spec tx_rx mb_i spec s) = None"
    from update_subdev_spec_None [OF this] len show ?pairing
      by (simp add: checks_pass_def)
  }
  {
    assume "\<not> ?pairing"
    with len have "\<not> checks_pass tx_rx mb_i spec s" by (simp add: checks_pass_def)
    from update_subdev_spec_rejected [OF this]
    show "update_subdev_spec tx_rx mb_i spec s =
          (Some (if (tx_rx = ''tx'' \<or> tx_rx = ''rx'') \<and> mb_i < length (m_mb s) \<and>
                    \<not> validate_subdev_spec (m_tree_str s) spec tx_rx (string_of_nat mb_i)
                 then Value_error else Assertion_error), s)" .
  }
  {
    assume h: "?pairing \<and>
      (tx_rx = ''tx'' \<or> tx_rx = ''rx'') \<and> mb_i < length (m_mb s) \<and>
      validate_subdev_spec (m_tree_str s) spec tx_rx (string_of_nat mb_i) \<and>
      get_radio_index (m_mb s ! mb_i) ''A'' < length (radio_perifs (m_mb s ! mb_i)) \<and>
      get_radio_index (m_mb s ! mb_i) ''B'' < length (radio_perifs (m_mb s ! mb_i))"
    with len have c: "checks_pass tx_rx mb_i spec s" by (simp add: checks_pass_def)
    have "\<forall>p\<in>set spec. entry_ok s tx_rx mb_i p"
    proof
      fix p assume p: "p \<in> set spec"
      with len have "p = spec ! 0 \<or> p = spec ! 1" by (rule pair_names)
      with h have "db_name p = ''A'' \<or> db_name p = ''B''" by auto
      with h have "radio_idx_of s mb_i p < length (radio_perifs (m_mb s ! mb_i))"
        by (auto simp add: radio_idx_of_def)
      moreover from h p have "m_tree_str s (connection_path (''/mboards/'' @ string_of_nat mb_i) tx_rx p) \<noteq> None"
        using validate_entry_tree by blast
      ultimately show "entry_ok s tx_rx mb_i p" by (simp add: entry_ok_def)
    qed
    from update_subdev_spec_ok [OF c this]
    show "fst (update_subdev_spec tx_rx mb_i spec s) = None" by simp
  }
qed

theorem update_subdev_spec_pairing_witness:
  "fst (update_subdev_spec ''rx'' 0 ex_spec ex_state) = None \<and>
   update_subdev_spec ''rx'' 0 [\<lparr>db_name = ''A'', sd_name = ''0''\<rparr>, \<lparr>db_name = ''A'', sd_name = ''0''\<rparr>] ex_state
     = (Some Assertion_error, ex_state)"
  using update_subdev_spec_pairing [of ex_spec "''rx''" 0 ex_state]
    update_subdev_spec_pairing [of "[\<lparr>db_name = ''A'', sd_name = ''0''\<rparr>, \<lparr>db_name = ''A'', sd_name = ''0''\<rparr>]" "''rx''" 0 ex_state]
  by (simp add: ex_spec_def validate_subdev_spec_def path_eval ex_tree_vals ex_state_fields
      ex_mboard_index ex_mboard_perifs)

text \<open>
  The claim as first stated, success exactly when the names are \<open>A\<close> and \<open>B\<close>,
  fails: a spec that names \<open>A\<close> and \<open>B\<close> is rejected when it names a frontend the
  motherboard does not have, and when the motherboard index is out of range.
\<close>

theorem update_subdev_spec_pairing_not_sufficient:
  "fst (update_subdev_spec ''rx'' 0
          [\<lparr>db_name = ''A'', sd_name = ''0''\<rparr>, \<lparr>db_name = ''B'', sd_name = ''1''\<rparr>] ex_state)
     = Some Value_error \<and>
   fst (update_subdev_spec ''rx'' 2 ex_spec ex_state) = Some Assertion_error"
  by (simp add: update_subdev_spec_def ex_spec_def validate_subdev_spec_def path_eval ex_tree_vals
      ex_state_fields Let_def)

text \<open>
  Claim C3. In a call for \<open>rx\<close> that succeeds, every entry of the spec has a
  connection string \<open>conn\<close>, and the calls made are, entry by entry in the order of
  the spec, the DDC's \<^verbatim>\<open>set_mux(conn, fe_swapped)\<close> followed by the receive front-end's
  \<^verbatim>\<open>set_mux(fe_swapped)\<close>, where \<open>fe_swapped\<close> is true exactly when \<open>conn\<close> is
  \<open>QI\<close> or \<open>Q\<close>. In a call for \<open>tx\<close> that succeeds they are the transmit
  front-end's \<^verbatim>\<open>set_mux(conn)\<close> with the connection string as it is.
\<close>

theorem update_subdev_spec_mux_programming:
  "(fst (update_subdev_spec ''rx'' mb_i spec s) = None \<longrightarrow>
      list_all (\<lambda>p. m_tree_str s (connection_path (''/mboards/'' @ string_of_nat mb_i) ''rx'' p) \<noteq> None) spec \<and>
      calls (snd (update_subdev_spec ''rx'' mb_i spec s)) =
        calls s @
        concat (map (\<lambda>p. [Ddc_set_mux mb_i (radio_idx_of s mb_i p) (conn_of s ''rx'' mb_i p)
                             (conn_of s ''rx'' mb_i p = ''QI'' \<or> conn_of s ''rx'' mb_i p = ''Q''),
                           Rx_fe_set_mux mb_i (radio_idx_of s mb_i p)
                             (conn_of s ''rx'' mb_i p = ''QI'' \<or> conn_of s ''rx'' mb_i p = ''Q'')]) spec) @
        [Tree_set_chan_dsp_mapping
           (fs_path_div (''/mboards/'' @ string_of_nat mb_i) (''rx'' @ ''_chan_dsp_mapping''))
           (map (radio_idx_of s mb_i) spec)]) \<and>
   (fst (update_subdev_spec ''tx'' mb_i spec s) = None \<longrightarrow>
      list_all (\<lambda>p. m_tree_str s (connection_path (''/mboards/'' @ string_of_nat mb_i) ''tx'' p) \<noteq> None) spec \<and>
      calls (snd (update_subdev_spec ''tx'' mb_i spec s)) =
        calls s @
        map (\<lambda>p. Tx_fe_set_mux mb_i (radio_idx_of s mb_i p) (conn_of s ''tx'' mb_i p)) spec @
        [Tree_set_chan_dsp_mapping
           (fs_path_div (''/mboards/'' @ string_of_nat mb_i) (''tx'' @ ''_chan_dsp_mapping''))
           (map (radio_idx_of s mb_i) spec)])"
proof (intro conjI impI)
  assume ok: "fst (update_subdev_spec ''rx'' mb_i spec s) = None"
  from update_subdev_spec_None [OF ok]
  show "list_all (\<lambda>p. m_tree_str s (connection_path (''/mboards/'' @ string_of_nat mb_i) ''rx'' p) \<noteq> None) spec"
    by (simp add: entry_ok_def list_all_iff)
  have e: "entry_calls ''rx'' mb_i s = (\<lambda>p. [Ddc_set_mux mb_i (radio_idx_of s mb_i p) (conn_of s ''rx'' mb_i p)
                             (conn_of s ''rx'' mb_i p = ''QI'' \<or> conn_of s ''rx'' mb_i p = ''Q''),
                           Rx_fe_set_mux mb_i (radio_idx_of s mb_i p)
                             (conn_of s ''rx'' mb_i p = ''QI'' \<or> conn_of s ''rx'' mb_i p = ''Q'')])"
    by (rule ext) (simp add: entry_calls_def)
  show "calls (snd (update_subdev_spec ''rx'' mb_i spec s)) =
        calls s @
        concat (map (\<lambda>p. [Ddc_set_mux mb_i (radio_idx_of s mb_i p) (conn_of s ''rx'' mb_i p)
                             (conn_of s ''rx'' mb_i p = ''QI'' \<or> conn_of s ''rx'' mb_i p = ''Q''),
                           Rx_fe_set_mux mb_i (radio_idx_of s mb_i p)
                             (conn_of s ''rx'' mb_i p = ''QI'' \<or> conn_of s ''rx'' mb_i p = ''Q'')]) spec) @
        [Tree_set_chan_dsp_mapping
           (fs_path_div (''/mboards/'' @ string_of_nat mb_i) (''rx'' @ ''_chan_dsp_mapping''))
           (map (radio_idx_of s mb_i) spec)]"
    unfolding update_subdev_spec_result [OF ok] snd_conv tree_set_vec_after_mux_all e ..
next
  assume ok: "fst (update_subdev_spec ''tx'' mb_i spec s) = None"
  from update_subdev_spec_None [OF ok]
  show "list_all (\<lambda>p. m_tree_str s (connection_path (''/mboards/'' @ string_of_nat mb_i) ''tx'' p) \<noteq> None) spec"
    by (simp add: entry_ok_def list_all_iff)
  have e: "concat (map (entry_calls ''tx'' mb_i s) spec) =
      map (\<lambda>p. Tx_fe_set_mux mb_i (radio_idx_of s mb_i p) (conn_of s ''tx'' mb_i p)) spec"
    by (induction spec) (simp_all add: entry_calls_def)
  show "calls (snd (update_subdev_spec ''tx'' mb_i spec s)) =
        calls s @
        map (\<lambda>p. Tx_fe_set_mux mb_i (radio_idx_of s mb_i p) (conn_of s ''tx'' mb_i p)) spec @
        [Tree_set_chan_dsp_mapping
           (fs_path_div (''/mboards/'' @ string_of_nat mb_i) (''tx'' @ ''_chan_dsp_mapping''))
           (map (radio_idx_of s mb_i) spec)]"
    unfolding update_subdev_spec_result [OF ok] snd_conv tree_set_vec_after_mux_all e ..
qed

theorem update_subdev_spec_mux_programming_witness:
  "calls (snd (update_subdev_spec ''rx'' 0 ex_spec ex_state)) =
     [Ddc_set_mux 0 0 ''IQ'' False, Rx_fe_set_mux 0 0 False,
      Ddc_set_mux 0 1 ''QI'' True, Rx_fe_set_mux 0 1 True,
      Tree_set_chan_dsp_mapping ''/mboards/0/rx_chan_dsp_mapping'' [0, 1]] \<and>
   calls (snd (update_subdev_spec ''tx'' 0 ex_spec ex_state)) =
     [Tx_fe_set_mux 0 0 ''IQ'', Tx_fe_set_mux 0 1 ''QI'',
      Tree_set_chan_dsp_mapping ''/mboards/0/tx_chan_dsp_mapping'' [0, 1]]"
  using update_subdev_spec_mux_programming [of 0 ex_spec ex_state]
  by (simp add: ex_spec_ok)
     (simp add: ex_spec_def radio_idx_of_def conn_of_def path_eval ex_tree_vals
       ex_state_fields ex_mboard_index ex_state_calls)

text \<open>
  Claim C4. After a successful call the property tree holds, under the mapping path of
  the direction and the motherboard, a vector with as many entries as the spec, whose
  entry \<open>i\<close> is the radio index of the daughterboard name of \<open>spec[i]\<close>; writing
  it is the last call of the run, after the mux calls of every entry. A call that fails
  leaves the stored mappings as they were.
\<close>

theorem update_subdev_spec_mapping:
  "(fst (update_subdev_spec tx_rx mb_i spec s) = None \<longrightarrow>
     (\<exists>m. m_tree_vec (snd (update_subdev_spec tx_rx mb_i spec s))
             (fs_path_div (''/mboards/'' @ string_of_nat mb_i) (tx_rx @ ''_chan_dsp_mapping'')) = Some m \<and>
          length m = length spec \<and>
          (\<forall>i<length spec. m ! i = get_radio_index (m_mb s ! mb_i) (db_name (spec ! i))) \<and>
          calls (snd (update_subdev_spec tx_rx mb_i spec s)) =
            calls s @ concat (map (entry_calls tx_rx mb_i s) spec) @
            [Tree_set_chan_dsp_mapping
               (fs_path_div (''/mboards/'' @ string_of_nat mb_i) (tx_rx @ ''_chan_dsp_mapping'')) m])) \<and>
   (fst (update_subdev_spec tx_rx mb_i spec s) \<noteq> None \<longrightarrow>
      m_tree_vec (snd (update_subdev_spec tx_rx mb_i spec s)) = m_tree_vec s)"
proof (intro conjI impI)
  assume "fst (update_subdev_spec tx_rx mb_i spec s) \<noteq> None"
  then show "m_tree_vec (snd (update_subdev_spec tx_rx mb_i spec s)) = m_tree_vec s"
    by (rule update_subdev_spec_failed_tree_vec)
next
  assume ok: "fst (update_subdev_spec tx_rx mb_i spec s) = None"
  let ?m = "map (radio_idx_of s mb_i) spec"
  let ?path = "fs_path_div (''/mboards/'' @ string_of_nat mb_i) (tx_rx @ ''_chan_dsp_mapping'')"
  have "m_tree_vec (snd (update_subdev_spec tx_rx mb_i spec s)) ?path = Some ?m"
    unfolding update_subdev_spec_result [OF ok] snd_conv tree_set_vec_after_mux_all ..
  moreover have "length ?m = length spec" by simp
  moreover have "\<forall>i<length spec. ?m ! i = get_radio_index (m_mb s ! mb_i) (db_name (spec ! i))"
    by (simp add: radio_idx_of_def)
  moreover have "calls (snd (update_subdev_spec tx_rx mb_i spec s)) =
            calls s @ concat (map (entry_calls tx_rx mb_i s) spec) @
            [Tree_set_chan_dsp_mapping ?path ?m]"
    unfolding update_subdev_spec_result [OF ok] snd_conv tree_set_vec_after_mux_all ..
  ultimately show "\<exists>m. m_tree_vec (snd (update_subdev_spec tx_rx mb_i spec s)) ?path = Some m \<and>
          length m = length spec \<and>
          (\<forall>i<length spec. m ! i = get_radio_index (m_mb s ! mb_i) (db_name (spec ! i))) \<and>
          calls (snd (update_subdev_spec tx_rx mb_i spec s)) =
            calls s @ concat (map (entry_calls tx_rx mb_i s) spec) @
            [Tree_set_chan_dsp_mapping ?path m]"
    by blast
qed

theorem update_subdev_spec_mapping_witness:
  "m_tree_vec (snd (update_subdev_spec ''rx'' 0 ex_spec ex_state)) ''/mboards/0/rx_chan_dsp_mapping''
     = Some [0, 1] \<and>
   length ex_spec = 2 \<and>
   last (calls (snd (update_subdev_spec ''rx'' 0 ex_spec ex_state))) =
     Tree_set_chan_dsp_mapping ''/mboards/0/rx_chan_dsp_mapping'' [0, 1]"
proof -
  from update_subdev_spec_mapping [of "''rx''" 0 ex_spec ex_state, THEN conjunct1] ex_spec_ok(1)
  obtain m where m: "m_tree_vec (snd (update_subdev_spec ''rx'' 0 ex_spec ex_state))
             (fs_path_div (''/mboards/'' @ string_of_nat 0) (''rx'' @ ''_chan_dsp_mapping'')) = Some m"
    and len: "length m = length ex_spec"
    and idx: "\<forall>i<length ex_spec. m ! i = get_radio_index (m_mb ex_state ! 0) (db_name (ex_spec ! i))"
    and c: "calls (snd (update_subdev_spec ''rx'' 0 ex_spec ex_state)) =
            calls ex_state @ concat (map (entry_calls ''rx'' 0 ex_state) ex_spec) @
            [Tree_set_chan_dsp_mapping
               (fs_path_div (''/mboards/'' @ string_of_nat 0) (''rx'' @ ''_chan_dsp_mapping'')) m]"
    by blast
  from len have l2: "length m = 2" by (simp add: ex_spec_def)
  from idx have "m ! 0 = 0" "m ! 1 = 1"
    by (simp_all add: ex_spec_def ex_state_fields ex_mboard_index)
  with l2 have "m = [0, 1]"
    by (cases m; cases "tl m"; cases "tl (tl m)"; simp)
  with m c show ?thesis
    by (simp add: path_eval ex_spec_def)
qed

section \<open>Properties of get_rx_hints and get_tx_hints\<close>

text \<open>
  Claim C9, as amended. For a valid motherboard index neither function raises.
  \<^verbatim>\<open>get_tx_hints\<close> returns the stored send configuration. \<^verbatim>\<open>get_rx_hints\<close>
  returns the stored receive configuration, and appends the entry
  \<open>recv_buff_size\<close> with the default of the platform when the configuration has no
  such entry, the transport path is not \<open>nirio\<close> and the build is for macOS, BSD,
  Linux or Windows; in a build for none of these nothing is added.
\<close>

theorem get_hints_spec:
  "mb_index < length (m_mb s) \<Longrightarrow>
   get_rx_hints plat E M s mb_index =
     Inr (if \<not> dict_has_key (recv_args (m_mb s ! mb_index)) ''recv_buff_size''
             \<and> xport_path (m_mb s ! mb_index) \<noteq> ''nirio'' \<and> plat \<noteq> Platform_other
          then recv_args (m_mb s ! mb_index) @
                 [(''recv_buff_size'',
                   string_of_nat (if plat = UHD_PLATFORM_MACOS \<or> plat = UHD_PLATFORM_BSD then M else E))]
          else recv_args (m_mb s ! mb_index))
   \<and> get_tx_hints s mb_index = Inr (send_args (m_mb s ! mb_index))"
  by (cases plat) (simp_all add: get_rx_hints_def get_tx_hints_def dict_set_absent Let_def)

theorem get_hints_spec_witness:
  "get_rx_hints UHD_PLATFORM_LINUX 1000 500 ex_state 0 = Inr [(''recv_buff_size'', ''1000'')] \<and>
   get_rx_hints UHD_PLATFORM_MACOS 1000 500 ex_state 0 = Inr [(''recv_buff_size'', ''500'')] \<and>
   get_tx_hints ex_state 0 = Inr [(''send_frame_size'', ''8000'')]"
  using get_hints_spec [of 0 ex_state UHD_PLATFORM_LINUX 1000 500]
    get_hints_spec [of 0 ex_state UHD_PLATFORM_MACOS 1000 500]
  by (simp add: ex_state_fields dict_has_key_def ex_mboard_def string_of_nat.simps digit_char_def)

text \<open>
  The claim as first stated promises the default entry on every platform. A build in
  which none of the four platform macros is defined adds none.
\<close>

theorem get_rx_hints_no_default_on_other_platform:
  "\<not> dict_has_key (recv_args (m_mb ex_state ! 0)) ''recv_buff_size'' \<and>
   xport_path (m_mb ex_state ! 0) \<noteq> ''nirio'' \<and>
   get_rx_hints Platform_other 1000 500 ex_state 0 = Inr (recv_args (m_mb ex_state ! 0)) \<and>
   get_rx_hints Platform_other 1000 500 ex_state 0 = Inr []"
  by (simp add: get_rx_hints_def ex_state_fields dict_has_key_def ex_mboard_def)

section \<open>Properties of post_streamer_hooks\<close>

lemma collect_radios_eq:
  "collect_radios mbs blks radios =
     (if radios_in_range mbs blks then Inr (radios @ blks) else Inl Undefined_behaviour)"
  by (induction mbs blks radios rule: collect_radios.induct)
     (simp_all add: radios_in_range_def)

lemma sync_loop_dead:
  "m_tx_objs s w = None \<Longrightarrow> sync_loop sync s (w # ws) = sync_loop sync s ws"
  by simp

lemma sync_loop_range:
  "m_tx_objs s w = Some tx \<Longrightarrow> \<not> radios_in_range (m_mb s) (tx_downstream_radios tx) \<Longrightarrow>
   sync_loop sync s (w # ws) = (Some Undefined_behaviour, s)"
  by (simp add: collect_radios_eq)

lemma sync_loop_ok:
  "m_tx_objs s w = Some tx \<Longrightarrow> radios_in_range (m_mb s) (tx_downstream_radios tx) \<Longrightarrow>
   sync (tx_downstream_radios tx) = None \<Longrightarrow>
   sync_loop sync s (w # ws) =
     sync_loop sync (s\<lparr>calls := calls s @ [Synchronize_dacs (tx_downstream_radios tx)]\<rparr>) ws"
  by (simp add: collect_radios_eq)

lemma sync_loop_io:
  "m_tx_objs s w = Some tx \<Longrightarrow> radios_in_range (m_mb s) (tx_downstream_radios tx) \<Longrightarrow>
   sync (tx_downstream_radios tx) = Some (Io_error what) \<Longrightarrow>
   sync_loop sync s (w # ws) =
     (Some (Io_error (''Failed to sync DACs! '' @ what @ '' '')),
      s\<lparr>calls := calls s @ [Synchronize_dacs (tx_downstream_radios tx)]\<rparr>)"
  by (simp add: collect_radios_eq)

lemma sync_loop_raise:
  "m_tx_objs s w = Some tx \<Longrightarrow> radios_in_range (m_mb s) (tx_downstream_radios tx) \<Longrightarrow>
   sync (tx_downstream_radios tx) = Some e \<Longrightarrow>
   \<exists>e'. sync_loop sync s (w # ws) =
     (Some e', s\<lparr>calls := calls s @ [Synchronize_dacs (tx_downstream_radios tx)]\<rparr>)"
  by (cases e) (simp_all add: collect_radios_eq)

declare sync_loop.simps(2) [simp del]

lemma live_groups_simps:
  "live_groups s [] = []"
  "m_tx_objs s w = None \<Longrightarrow> live_groups s (w # ws) = live_groups s ws"
  "m_tx_objs s w = Some tx \<Longrightarrow> live_groups s (w # ws) = tx_downstream_radios tx # live_groups s ws"
  by (simp_all add: live_groups_def)

lemma live_groups_calls:
  "live_groups (s\<lparr>calls := c\<rparr>) ws = live_groups s ws"
  by (simp add: live_groups_def)

lemma sync_loop_prefix:
  "\<exists>n. snd (sync_loop sync s ws) = s\<lparr>calls := calls s @ map Synchronize_dacs (take n (live_groups s ws))\<rparr> \<and>
       (fst (sync_loop sync s ws) = None \<longrightarrow> n = length (live_groups s ws))"
proof (induction ws arbitrary: s)
  case Nil
  show ?case by (simp add: live_groups_simps)
next
  case (Cons w ws)
  show ?case
  proof (cases "m_tx_objs s w")
    case None
    with Cons.IH [of s] show ?thesis by (simp add: live_groups_simps sync_loop_dead)
  next
    case (Some tx)
    let ?g = "tx_downstream_radios tx"
    let ?s1 = "s\<lparr>calls := calls s @ [Synchronize_dacs ?g]\<rparr>"
    have lg: "live_groups s (w # ws) = ?g # live_groups s ws"
      using Some by (simp add: live_groups_simps)
    show ?thesis
    proof (cases "radios_in_range (m_mb s) ?g")
      case False
      have "snd (sync_loop sync s (w # ws)) =
              s\<lparr>calls := calls s @ map Synchronize_dacs (take 0 (live_groups s (w # ws)))\<rparr> \<and>
            (fst (sync_loop sync s (w # ws)) = None \<longrightarrow> 0 = length (live_groups s (w # ws)))"
        by (simp add: sync_loop_range [OF Some False])
      then show ?thesis by (rule exI [of _ 0])
    next
      case True
      show ?thesis
      proof (cases "sync ?g")
        case None
        note eq = sync_loop_ok [where sync = sync, OF Some True None]
        from Cons.IH [of ?s1] obtain n where
          n: "snd (sync_loop sync ?s1 ws) =
                ?s1\<lparr>calls := calls ?s1 @ map Synchronize_dacs (take n (live_groups ?s1 ws))\<rparr>"
          and nn: "fst (sync_loop sync ?s1 ws) = None \<longrightarrow> n = length (live_groups ?s1 ws)"
          by (elim exE conjE)
        have "snd (sync_loop sync s (w # ws)) =
                s\<lparr>calls := calls s @ map Synchronize_dacs (take (Suc n) (live_groups s (w # ws)))\<rparr> \<and>
              (fst (sync_loop sync s (w # ws)) = None \<longrightarrow> Suc n = length (live_groups s (w # ws)))"
          using n nn by (simp add: eq lg live_groups_calls)
        then show ?thesis by (rule exI [of _ "Suc n"])
      next
        case (Some e)
        from sync_loop_raise [where sync = sync and ws = ws, OF \<open>m_tx_objs s w = Some tx\<close> True Some]
        obtain e' where "sync_loop sync s (w # ws) = (Some e', ?s1)" by (elim exE)
        then have "snd (sync_loop sync s (w # ws)) =
                s\<lparr>calls := calls s @ map Synchronize_dacs (take (Suc 0) (live_groups s (w # ws)))\<rparr> \<and>
              (fst (sync_loop sync s (w # ws)) = None \<longrightarrow> Suc 0 = length (live_groups s (w # ws)))"
          by (simp add: lg)
        then show ?thesis by (rule exI [of _ "Suc 0"])
      qed
    qed
  qed
qed

lemma sync_loop_stops:
  assumes "\<forall>w\<in>set ws1. \<forall>tx'. m_tx_objs s w = Some tx' \<longrightarrow>
             radios_in_range (m_mb s) (tx_downstream_radios tx') \<and> sync (tx_downstream_radios tx') = None"
    and "m_tx_objs s w = Some tx"
    and "radios_in_range (m_mb s) (tx_downstream_radios tx)"
    and "sync (tx_downstream_radios tx) = Some (Io_error what)"
  shows "sync_loop sync s (ws1 @ w # ws2) =
     (Some (Io_error (''Failed to sync DACs! '' @ what @ '' '')),
      s\<lparr>calls := calls s @ map Synchronize_dacs (live_groups s ws1) @
                 [Synchronize_dacs (tx_downstream_radios tx)]\<rparr>)"
  using assms
proof (induction ws1 arbitrary: s)
  case Nil
  then show ?case by (simp add: sync_loop_io live_groups_simps)
next
  case (Cons v ws1)
  show ?case
  proof (cases "m_tx_objs s v")
    case None
    with Cons.IH [of s] Cons.prems show ?thesis
      by (simp add: sync_loop_dead live_groups_simps)
  next
    case (Some tx')
    let ?s1 = "s\<lparr>calls := calls s @ [Synchronize_dacs (tx_downstream_radios tx')]\<rparr>"
    from Cons.prems(1) Some have r: "radios_in_range (m_mb s) (tx_downstream_radios tx')"
      and ok: "sync (tx_downstream_radios tx') = None" by simp_all
    have "sync_loop sync ?s1 (ws1 @ w # ws2) =
      (Some (Io_error (''Failed to sync DACs! '' @ what @ '' '')),
       ?s1\<lparr>calls := calls ?s1 @ map Synchronize_dacs (live_groups ?s1 ws1) @
                 [Synchronize_dacs (tx_downstream_radios tx)]\<rparr>)"
      using Cons.prems by (intro Cons.IH) simp_all
    then show ?thesis
      using Some by (simp add: sync_loop_ok [where sync = sync, OF Some r ok] live_groups_simps live_groups_calls)
  qed
qed

lemma ex_state_tx:
  "dict_vals (m_tx_streamers ex_state) = [20, 22, 21]"
  "m_tx_objs ex_state 20 = Some ex_tx"
  "m_tx_objs ex_state 22 = None"
  "m_tx_objs ex_state 21 = Some ex_tx1"
  "radios_in_range (m_mb ex_state) (tx_downstream_radios ex_tx)"
  "radios_in_range (m_mb ex_state) (tx_downstream_radios ex_tx1)"
  by (simp_all add: ex_state_def dict_vals_def ex_tx_def ex_tx1_def radios_in_range_def
      ex_mboard_def)

lemma ex_state_live_groups:
  "live_groups ex_state [20, 22, 21] = [tx_downstream_radios ex_tx, tx_downstream_radios ex_tx1]"
  "live_groups ex_state [20, 22] = [tx_downstream_radios ex_tx]"
  by (simp_all add: live_groups_simps ex_state_tx)

lemma ex_groups:
  "tx_downstream_radios ex_tx = [(0, 0), (0, 1), (1, 0)]"
  "tx_downstream_radios ex_tx1 = [(1, 1)]"
  by (simp_all add: ex_tx_def ex_tx1_def)

lemma ex_sync_ok_run:
  "fst (post_streamer_hooks ex_sync_ok True ex_state) = None"
  by (simp add: post_streamer_hooks_def ex_state_tx sync_loop_dead
      sync_loop_ok [where sync = ex_sync_ok and tx = ex_tx]
      sync_loop_ok [where sync = ex_sync_ok and tx = ex_tx1] ex_sync_ok_def)

text \<open>
  Claim C5. \<^verbatim>\<open>post_streamer_hooks(true)\<close> changes nothing but the log of calls, to
  which it adds one call of the DAC synchronisation for each live transmit endpoint it
  reaches, in the order of the registry, each with the whole group of radio control
  blocks found downstream of that endpoint; a run that returns normally has reached
  every live endpoint. \<^verbatim>\<open>post_streamer_hooks(false)\<close> does nothing.
\<close>

theorem post_streamer_hooks_one_sync_per_endpoint:
  "(\<exists>n. snd (post_streamer_hooks sync True s) =
          s\<lparr>calls := calls s @
               map Synchronize_dacs (take n (live_groups s (dict_vals (m_tx_streamers s))))\<rparr> \<and>
        (fst (post_streamer_hooks sync True s) = None \<longrightarrow>
           n = length (live_groups s (dict_vals (m_tx_streamers s))))) \<and>
   post_streamer_hooks sync False s = (None, s)"
  using sync_loop_prefix [of sync s "dict_vals (m_tx_streamers s)"]
  by (simp add: post_streamer_hooks_def)

theorem post_streamer_hooks_one_sync_per_endpoint_witness:
  "post_streamer_hooks ex_sync_ok True ex_state =
     (None, ex_state\<lparr>calls := [Synchronize_dacs [(0, 0), (0, 1), (1, 0)], Synchronize_dacs [(1, 1)]]\<rparr>)"
proof -
  from post_streamer_hooks_one_sync_per_endpoint [of ex_sync_ok ex_state]
  obtain n where n: "snd (post_streamer_hooks ex_sync_ok True ex_state) =
          ex_state\<lparr>calls := calls ex_state @
               map Synchronize_dacs (take n (live_groups ex_state (dict_vals (m_tx_streamers ex_state))))\<rparr>"
    and nn: "fst (post_streamer_hooks ex_sync_ok True ex_state) = None \<longrightarrow>
           n = length (live_groups ex_state (dict_vals (m_tx_streamers ex_state)))"
    by (elim exE conjE)
  from nn ex_sync_ok_run have "n = 2" by (simp add: ex_state_tx ex_state_live_groups)
  with n have "snd (post_streamer_hooks ex_sync_ok True ex_state) =
     ex_state\<lparr>calls := [Synchronize_dacs [(0, 0), (0, 1), (1, 0)], Synchronize_dacs [(1, 1)]]\<rparr>"
    by (simp add: ex_state_tx ex_state_live_groups ex_state_calls ex_groups)
  with ex_sync_ok_run show ?thesis
    by (simp add: prod_eq_iff)
qed

text \<open>
  Claim C6, as amended. When the DAC synchronisation fails with an I/O error for the
  group of a live transmit endpoint, all endpoints before it having been synchronised,
  \<^verbatim>\<open>post_streamer_hooks(true)\<close> raises one I/O error whose message is
  \<open>Failed to sync DACs!\<close> followed by the message of the underlying error, and the
  run ends there: the log holds the calls up to the failing one and none for the
  endpoints that follow.
\<close>

theorem post_streamer_hooks_sync_failure:
  "dict_vals (m_tx_streamers s) = ws1 @ w # ws2 \<and>
   (\<forall>v\<in>set ws1. \<forall>tx'. m_tx_objs s v = Some tx' \<longrightarrow>
      radios_in_range (m_mb s) (tx_downstream_radios tx') \<and> sync (tx_downstream_radios tx') = None) \<and>
   m_tx_objs s w = Some tx \<and>
   radios_in_range (m_mb s) (tx_downstream_radios tx) \<and>
   sync (tx_downstream_radios tx) = Some (Io_error what)
   \<longrightarrow> post_streamer_hooks sync True s =
        (Some (Io_error (''Failed to sync DACs! '' @ what @ '' '')),
         s\<lparr>calls := calls s @ map Synchronize_dacs (live_groups s ws1) @
                    [Synchronize_dacs (tx_downstream_radios tx)]\<rparr>)"
proof
  assume h: "dict_vals (m_tx_streamers s) = ws1 @ w # ws2 \<and>
   (\<forall>v\<in>set ws1. \<forall>tx'. m_tx_objs s v = Some tx' \<longrightarrow>
      radios_in_range (m_mb s) (tx_downstream_radios tx') \<and> sync (tx_downstream_radios tx') = None) \<and>
   m_tx_objs s w = Some tx \<and>
   radios_in_range (m_mb s) (tx_downstream_radios tx) \<and>
   sync (tx_downstream_radios tx) = Some (Io_error what)"
  then have "sync_loop sync s (ws1 @ w # ws2) =
     (Some (Io_error (''Failed to sync DACs! '' @ what @ '' '')),
      s\<lparr>calls := calls s @ map Synchronize_dacs (live_groups s ws1) @
                 [Synchronize_dacs (tx_downstream_radios tx)]\<rparr>)"
    by (intro sync_loop_stops) simp_all
  with h show "post_streamer_hooks sync True s =
        (Some (Io_error (''Failed to sync DACs! '' @ what @ '' '')),
         s\<lparr>calls := calls s @ map Synchronize_dacs (live_groups s ws1) @
                    [Synchronize_dacs (tx_downstream_radios tx)]\<rparr>)"
    by (simp add: post_streamer_hooks_def)
qed

theorem post_streamer_hooks_sync_failure_witness:
  "post_streamer_hooks ex_sync_second_fails True ex_state =
     (Some (Io_error ''Failed to sync DACs! timeout ''),
      ex_state\<lparr>calls := [Synchronize_dacs [(0, 0), (0, 1), (1, 0)], Synchronize_dacs [(1, 1)]]\<rparr>)"
  using post_streamer_hooks_sync_failure [where s = ex_state and ?ws1.0 = "[20, 22]" and w = 21
      and ?ws2.0 = "[]" and sync = ex_sync_second_fails and tx = ex_tx1 and what = "''timeout''"]
  by (simp add: ex_state_tx ex_state_live_groups ex_state_calls)
     (simp add: ex_sync_second_fails_def ex_groups)

text \<open>
  The claim as first stated has the synchronisation still attempted for the other live
  endpoints and the group's size carried in the error. With two live endpoints and a
  failure at the first, the second is never synchronised, and the message holds only
  the underlying error's text.
\<close>

theorem post_streamer_hooks_stops_at_first_failure:
  "post_streamer_hooks ex_sync_first_fails True ex_state =
     (Some (Io_error ''Failed to sync DACs! timeout ''),
      ex_state\<lparr>calls := [Synchronize_dacs [(0, 0), (0, 1), (1, 0)]]\<rparr>) \<and>
   m_tx_objs ex_state 21 = Some ex_tx1 \<and>
   21 \<in> set (dict_vals (m_tx_streamers ex_state)) \<and>
   Synchronize_dacs (tx_downstream_radios ex_tx1)
     \<notin> set (calls (snd (post_streamer_hooks ex_sync_first_fails True ex_state)))"
proof -
  have "post_streamer_hooks ex_sync_first_fails True ex_state =
     (Some (Io_error ''Failed to sync DACs! timeout ''),
      ex_state\<lparr>calls := [Synchronize_dacs [(0, 0), (0, 1), (1, 0)]]\<rparr>)"
  proof -
    have "ex_sync_first_fails (tx_downstream_radios ex_tx) = Some (Io_error ''timeout'')"
      by (simp add: ex_sync_first_fails_def ex_groups)
    from sync_loop_io [where sync = ex_sync_first_fails and ws = "[22, 21]",
        OF ex_state_tx(2) ex_state_tx(5) this]
    show ?thesis
      by (simp add: post_streamer_hooks_def ex_state_tx ex_state_calls ex_groups)
  qed
  then show ?thesis
    by (simp add: ex_state_tx ex_groups)
qed

end
